theory Spec2Isabelle
  imports Main "HOL-Library.Word"
begin

section \<open>JavaScript strings\<close>

text \<open>
  A JavaScript string is a sequence of 16-bit UTF-16 code units; \<open>length\<close>, \<open>split\<close>,
  \<open>trim\<close> and the regular expressions of the front end (none has the \<open>u\<close> flag) all
  work on code units. \<open>js\<close> turns an ASCII literal into such a string.
\<close>

type_synonym jschar = "16 word"
type_synonym jsstring = "jschar list"

definition js :: "string \<Rightarrow> jsstring" where
  "js s = map of_char s"

text \<open>A string has at most \<open>2^53 - 1\<close> elements.\<close>

definition is_String :: "jsstring \<Rightarrow> bool" where
  "is_String s = (int (length s) < 2 ^ 53)"

definition LF :: jschar where
  "LF = 0x0A"

definition HASH :: jschar where
  "HASH = 0x23"


text \<open>
  The line terminators of ECMAScript (LF, CR, LS, PS): the characters that \<open>.\<close> does not
  match.
\<close>

definition isLineTerminator :: "jschar \<Rightarrow> bool" where
  "isLineTerminator c = (c = 0x0A \<or> c = 0x0D \<or> c = 0x2028 \<or> c = 0x2029)"

text \<open>
  The class \<open>\s\<close>, which is also the set that \<open>String.prototype.trim\<close> strips: the
  white space characters (TAB, VT, FF, SP, NBSP, ZWNBSP and the category Zs) together with
  the line terminators.
\<close>

definition isWhiteSpace :: "jschar \<Rightarrow> bool" where
  "isWhiteSpace c =
     (c = 0x09 \<or> c = 0x0B \<or> c = 0x0C \<or> c = 0x20 \<or> c = 0xA0 \<or> c = 0x1680 \<or>
      (0x2000 \<le> c \<and> c \<le> 0x200A) \<or> c = 0x202F \<or> c = 0x205F \<or> c = 0x3000 \<or>
      c = 0xFEFF \<or> isLineTerminator c)"

definition trim :: "jsstring \<Rightarrow> jsstring" where
  "trim s = rev (dropWhile isWhiteSpace (rev (dropWhile isWhiteSpace s)))"

definition startsWith :: "jsstring \<Rightarrow> jsstring \<Rightarrow> bool" where
  "startsWith s p = (take (length p) s = p)"

definition substring_from :: "jsstring \<Rightarrow> nat \<Rightarrow> jsstring" where
  "substring_from s n = drop n s"


text \<open>
  \<open>s.split(sep)\<close> for a one-character separator: the pieces between the separators, so
  the result is never empty and \<open>''.split('\n')\<close> is \<open>['']\<close>.
\<close>

fun split :: "jsstring \<Rightarrow> jschar \<Rightarrow> jsstring list" where
  "split [] sep = [[]]"
| "split (c # cs) sep =
     (if c = sep then [] # split cs sep
      else (case split cs sep of [] \<Rightarrow> [[c]] | piece # pieces \<Rightarrow> (c # piece) # pieces))"


text \<open>
  \<open>String(n)\<close> for a non-negative integer \<open>n\<close>: its decimal digits (what JavaScript
  prints for every integer below \<open>10^21\<close>).
\<close>

fun numToString :: "nat \<Rightarrow> jsstring" where
  "numToString n =
     (if n < 10 then [of_nat (48 + n)]
      else numToString (n div 10) @ [of_nat (48 + n mod 10)])"

declare numToString.simps [simp del]

section \<open>The heading regular expressions\<close>

text \<open>
  A backtracking matcher tries the candidates of a greedy quantifier from the longest to
  the shortest and keeps the first that lets the rest of the pattern match.
\<close>

fun first_match :: "(nat \<Rightarrow> 'a option) \<Rightarrow> nat list \<Rightarrow> 'a option" where
  "first_match f [] = None"
| "first_match f (n # ns) = (case f n of Some r \<Rightarrow> Some r | None \<Rightarrow> first_match f ns)"

text \<open>Lengths \<open>hi, hi - 1, ..., lo\<close>, the order in which a greedy quantifier gives back.\<close>

definition greedy :: "nat \<Rightarrow> nat \<Rightarrow> nat list" where
  "greedy lo hi = rev [lo ..< Suc hi]"

text \<open>\<open>(.+)$\<close> at the end of a pattern without the \<open>m\<close> flag: the whole rest of the
  input, which must be non-empty and free of line terminators.\<close>

definition dot_plus_end :: "jsstring \<Rightarrow> jsstring option" where
  "dot_plus_end r = (if r \<noteq> [] \<and> list_all (\<lambda>c. \<not> isLineTerminator c) r then Some r else None)"

text \<open>\<open>\s*(.+)$\<close>: the greedy run of white space, given back one character at a time.\<close>

definition spaces_dot_plus_end :: "jsstring \<Rightarrow> jsstring option" where
  "spaces_dot_plus_end r =
     first_match (\<lambda>m. dot_plus_end (drop m r)) (greedy 0 (length (takeWhile isWhiteSpace r)))"

text \<open>
  \<open>line.match(/^(#+)\s*(.+)$/)\<close>: \<open>None\<close> is \<open>null\<close>, \<open>Some (g1, g2)\<close> are the two
  groups \<open>match[1]\<close> and \<open>match[2]\<close>.
\<close>

definition match_heading :: "jsstring \<Rightarrow> (jsstring \<times> jsstring) option" where
  "match_heading line =
     first_match
       (\<lambda>j. case spaces_dot_plus_end (drop j line) of
               None \<Rightarrow> None
             | Some g2 \<Rightarrow> Some (take j line, g2))
       (greedy 1 (length (takeWhile (\<lambda>c. c = HASH) line)))"

text \<open>\<open>/^#+\s/.test(line)\<close>\<close>

definition test_heading_prefix :: "jsstring \<Rightarrow> bool" where
  "test_heading_prefix line =
     list_ex (\<lambda>j. case drop j line of [] \<Rightarrow> False | c # _ \<Rightarrow> isWhiteSpace c)
       (greedy 1 (length (takeWhile (\<lambda>c. c = HASH) line)))"

section \<open>Hierarchical numbering\<close>

text \<open>
  The counters are JavaScript numbers in a JavaScript array: a slot read beyond the array
  is \<open>undefined\<close>, \<open>undefined++\<close> and \<open>NaN++\<close> store \<open>NaN\<close>, a write beyond the end
  extends the array with holes, and neither \<open>undefined > 0\<close> nor \<open>NaN > 0\<close> holds.
\<close>

datatype jsnum = Undefined | NaN | Num nat

definition array_get :: "jsnum list \<Rightarrow> nat \<Rightarrow> jsnum" where
  "array_get a i = (if i < length a then a ! i else Undefined)"

definition array_set :: "jsnum list \<Rightarrow> nat \<Rightarrow> jsnum \<Rightarrow> jsnum list" where
  "array_set a i v =
     (if i < length a then a[i := v]
      else a @ replicate (i - length a) Undefined @ [v])"

fun increment :: "jsnum \<Rightarrow> jsnum" where
  "increment (Num n) = Num (n + 1)"
| "increment NaN = NaN"
| "increment Undefined = NaN"

fun positive :: "jsnum \<Rightarrow> bool" where
  "positive (Num n) = (n > 0)"
| "positive NaN = False"
| "positive Undefined = False"

text \<open>
  \<open>for (let i = level; i < counters.length; i++) counters[i] = 0\<close> of
  \<open>generateHierarchicalNumbering\<close> in send_topic.js.
\<close>

definition reset_deeper :: "nat \<Rightarrow> jsnum list \<Rightarrow> jsnum list" where
  "reset_deeper level counters =
     fold (\<lambda>i cs. cs[i := Num 0]) [level ..< length counters] counters"

text \<open>
  The same loop in \<open>HistoryOutlineManager.generateHierarchicalNumbering\<close>
  (history_outline.js), whose body is \<open>if (i > level) counters[i] = 0\<close>.
\<close>

definition history_reset_deeper :: "nat \<Rightarrow> jsnum list \<Rightarrow> jsnum list" where
  "history_reset_deeper level counters =
     fold (\<lambda>i cs. if i > level then cs[i := Num 0] else cs) [level ..< length counters] counters"

text \<open>The loop that builds \<open>numberStr\<close> from the first \<open>level\<close> counters.\<close>

definition numberStr :: "nat \<Rightarrow> jsnum list \<Rightarrow> jsstring" where
  "numberStr level counters =
     fold (\<lambda>i str.
             if positive (array_get counters i)
             then str @ (if str \<noteq> [] then js ''.'' else []) @
                  (case array_get counters i of Num n \<Rightarrow> numToString n | _ \<Rightarrow> js ''NaN'')
             else str)
       [0 ..< level] []"

text \<open>
  The body of \<open>outlineLines.forEach\<close>, on the pair of \<open>counters\<close> and \<open>numbering\<close>,
  with the reset loop as a parameter: \<open>numbering_level_step\<close> is the body of
  \<open>if (match)\<close> for \<open>level = match[1].length\<close>.
\<close>

definition numbering_level_step ::
  "(nat \<Rightarrow> jsnum list \<Rightarrow> jsnum list) \<Rightarrow> nat \<Rightarrow> jsnum list \<times> jsstring list \<Rightarrow>
   jsnum list \<times> jsstring list" where
  "numbering_level_step reset level st =
     (let counters1 = reset level (fst st);
          counters2 = array_set counters1 (level - 1)
                        (increment (array_get counters1 (level - 1)))
      in (counters2, snd st @ [numberStr level counters2]))"

definition numbering_step ::
  "(nat \<Rightarrow> jsnum list \<Rightarrow> jsnum list) \<Rightarrow> jsstring \<Rightarrow> jsnum list \<times> jsstring list \<Rightarrow>
   jsnum list \<times> jsstring list" where
  "numbering_step reset line st =
     (case match_heading line of
        None \<Rightarrow> st
      | Some (g1, g2) \<Rightarrow> numbering_level_step reset (length g1) st)"

definition initial_counters :: "jsnum list" where
  "initial_counters = [Num 0, Num 0, Num 0, Num 0, Num 0, Num 0]"

definition generateHierarchicalNumbering :: "jsstring list \<Rightarrow> jsstring list" where
  "generateHierarchicalNumbering outlineLines =
     snd (fold (numbering_step reset_deeper) outlineLines (initial_counters, []))"

definition HistoryOutlineManager_generateHierarchicalNumbering ::
  "jsstring list \<Rightarrow> jsstring list" where
  "HistoryOutlineManager_generateHierarchicalNumbering outlineLines =
     snd (fold (numbering_step history_reset_deeper) outlineLines (initial_counters, []))"

text \<open>The level of a line, \<open>match[1].length\<close>, when the line matches.\<close>

definition heading_level :: "jsstring \<Rightarrow> nat option" where
  "heading_level line =
     (case match_heading line of None \<Rightarrow> None | Some (g1, g2) \<Rightarrow> Some (length g1))"


section \<open>Children of an outline item\<close>

text \<open>
  The loop of \<open>hasChildrenItems\<close> over the lines from \<open>currentIndex + 1\<close> on:
  \<open>return true\<close> on a deeper heading, \<open>break\<close> (then \<open>return false\<close>) on a heading
  that is not deeper, and the next line otherwise. \<open>currentIndex\<close> is an index into the
  array and \<open>currentLevel\<close> a level, as the callers pass them (the index of
  \<open>forEach\<close> and \<open>match[1].length\<close>): natural numbers.
\<close>

fun hasChildren_scan :: "jsstring list \<Rightarrow> nat \<Rightarrow> bool" where
  "hasChildren_scan [] currentLevel = False"
| "hasChildren_scan (line # rest) currentLevel =
     (case match_heading line of
        None \<Rightarrow> hasChildren_scan rest currentLevel
      | Some (g1, g2) \<Rightarrow>
          (let level = length g1
           in if level > currentLevel then True
              else if level \<le> currentLevel then False
              else hasChildren_scan rest currentLevel))"

definition hasChildrenItems :: "jsstring list \<Rightarrow> nat \<Rightarrow> nat \<Rightarrow> bool" where
  "hasChildrenItems outlineLines currentIndex currentLevel =
     hasChildren_scan (drop (currentIndex + 1) outlineLines) currentLevel"

section \<open>Results of network requests\<close>

text \<open>
  What \<open>await fetch(...)\<close> gives: the promise rejects, or it resolves to a response with
  its \<open>ok\<close> flag and its body. A body read with \<open>response.json()\<close> is not JSON at all
  (the promise rejects), the JSON value \<open>null\<close>, or an object of the shape the REST
  contract gives.
\<close>

datatype 'a json_body = InvalidJson | JsonNull | JsonObject 'a

datatype 'b fetch_result = Rejected | Response bool 'b

section \<open>Position manager\<close>

text \<open>
  The reply of \<open>/api/session/current_pos\<close>; a field that the reply lacks reads as
  \<open>undefined\<close>, here \<open>None\<close>.
\<close>

record pos_reply =
  status :: "jsstring option"
  current_pos :: "int option"
  session_uuid :: "jsstring option"

text \<open>The globals \<open>window.currentPos\<close> (\<open>None\<close> is \<open>undefined\<close>) and \<open>window.sessionUuid\<close>.\<close>

record window_pos =
  currentPos :: "int option"
  sessionUuid :: "jsstring option"

text \<open>The state in which send_topic.js leaves the globals when it is loaded.\<close>

definition initial_window_pos :: window_pos where
  "initial_window_pos = \<lparr>currentPos = Some (- 1), sessionUuid = None\<rparr>"

definition initializeGlobalPosManager ::
  "pos_reply json_body fetch_result \<Rightarrow> window_pos \<Rightarrow> window_pos" where
  "initializeGlobalPosManager r w =
     (case r of
        Rejected \<Rightarrow> w
      | Response ok body \<Rightarrow>
          (if ok then
             (case body of
                InvalidJson \<Rightarrow> w
              | JsonNull \<Rightarrow> w
              | JsonObject data \<Rightarrow>
                  (if status data = Some (js ''success'')
                   then w\<lparr>currentPos := current_pos data, sessionUuid := session_uuid data\<rparr>
                   else w))
           else w))"

definition getCurrentPos :: "window_pos \<Rightarrow> int" where
  "getCurrentPos w = (case currentPos w of Some p \<Rightarrow> p | None \<Rightarrow> 0)"

text \<open>
  \<open>setCurrentPos\<close> of send_topic.js: the value returned and the globals afterwards. A
  rejected fetch, a body that is not JSON and the \<open>TypeError\<close> of \<open>null.status\<close> all end
  in the \<open>catch\<close> block.
\<close>

definition setCurrentPos ::
  "int \<Rightarrow> pos_reply json_body fetch_result \<Rightarrow> window_pos \<Rightarrow> bool \<times> window_pos" where
  "setCurrentPos pos r w =
     (case r of
        Rejected \<Rightarrow> (False, w)
      | Response ok body \<Rightarrow>
          (if ok then
             (case body of
                InvalidJson \<Rightarrow> (False, w)
              | JsonNull \<Rightarrow> (False, w)
              | JsonObject data \<Rightarrow>
                  (if status data = Some (js ''success'')
                   then (True, w\<lparr>currentPos := Some pos\<rparr>)
                   else (False, w)))
           else (False, w)))"

text \<open>
  The fields of \<open>HistoryOutlineManager\<close> that its \<open>setCurrentPos\<close> touches, and the
  method: it throws where the function above returns, into the same \<open>catch\<close> block.
\<close>

record history_manager =
  this_currentPos :: "int option"
  selectedPos :: "int option"

definition initial_history_manager :: history_manager where
  "initial_history_manager = \<lparr>this_currentPos = Some (- 1), selectedPos = None\<rparr>"

definition HistoryOutlineManager_setCurrentPos ::
  "int \<Rightarrow> pos_reply json_body fetch_result \<Rightarrow> history_manager \<Rightarrow> bool \<times> history_manager" where
  "HistoryOutlineManager_setCurrentPos pos r m =
     (case r of
        Rejected \<Rightarrow> (False, m)
      | Response ok body \<Rightarrow>
          (if ok then
             (case body of
                InvalidJson \<Rightarrow> (False, m)
              | JsonNull \<Rightarrow> (False, m)
              | JsonObject data \<Rightarrow>
                  (if status data = Some (js ''success'')
                   then (True, m\<lparr>this_currentPos := Some pos\<rparr>)
                   else (False, m)))
           else (False, m)))"

text \<open>
  The two ways in which a request of the position manager goes wrong, in the words of the
  specification: the request fails (fetch rejects, or the response is not 2xx), and the
  server's reply does not report the status \<open>'success'\<close>.
\<close>

definition request_failed :: "'b fetch_result \<Rightarrow> bool" where
  "request_failed r = (case r of Rejected \<Rightarrow> True | Response ok body \<Rightarrow> \<not> ok)"

definition reports_success :: "pos_reply json_body fetch_result \<Rightarrow> bool" where
  "reports_success r =
     (case r of
        Rejected \<Rightarrow> False
      | Response ok body \<Rightarrow>
          (case body of
             InvalidJson \<Rightarrow> False
           | JsonNull \<Rightarrow> False
           | JsonObject data \<Rightarrow> status data = Some (js ''success'')))"

section \<open>Numbers\<close>

text \<open>
  A Number whose value is an integer is modelled by that integer. Numbers are IEEE 754
  doubles, so the integers that are Numbers are those of at most 53 significant bits below
  \<open>2^1024\<close>; every integer up to \<open>2^53\<close> in magnitude is one. \<open>round53\<close> is the
  Number value of a non-negative integer before overflow: the nearest integer of 53
  significant bits, the even one of two equally near.
\<close>

function bit_length :: "int \<Rightarrow> nat" where
  "bit_length n = (if n \<le> 0 then 0 else Suc (bit_length (n div 2)))"
  by pat_completeness auto
termination
  by (relation "measure nat") auto

declare bit_length.simps [simp del]

definition is_Number :: "int \<Rightarrow> bool" where
  "is_Number i = (\<bar>i\<bar> < 2 ^ 1024 \<and> 2 ^ (bit_length \<bar>i\<bar> - 53) dvd i)"

definition round53 :: "int \<Rightarrow> int" where
  "round53 x =
     (if x < 2 ^ 53 then x
      else (let e = bit_length x - 53; q = x div 2 ^ e; r = x mod 2 ^ e
            in if 2 * r < 2 ^ e \<or> (2 * r = 2 ^ e \<and> even q) then q * 2 ^ e
               else (q + 1) * 2 ^ e))"

text \<open>
  What \<open>parseInt\<close> returns: \<open>NaN\<close>, an integer Number or an infinity. \<open>toNumber\<close> is
  the Number value of a mathematical integer, and \<open>exceeds n i\<close> is the comparison
  \<open>n > i\<close> with an integer Number \<open>i\<close>.
\<close>

datatype number = NotANumber | Finite int | PlusInfinity | MinusInfinity

definition toNumber :: "int \<Rightarrow> number" where
  "toNumber x =
     (let r = round53 \<bar>x\<bar>
      in if r \<ge> 2 ^ 1024 then (if x < 0 then MinusInfinity else PlusInfinity)
         else Finite (if x < 0 then - r else r))"

fun exceeds :: "number \<Rightarrow> int \<Rightarrow> bool" where
  "exceeds (Finite k) i = (k > i)"
| "exceeds PlusInfinity i = True"
| "exceeds MinusInfinity i = False"
| "exceeds NotANumber i = False"

section \<open>Numbers in strings\<close>

text \<open>The decimal digits of a non-negative integer.\<close>

function decimal :: "int \<Rightarrow> jsstring" where
  "decimal n =
     (if n < 10 then [of_int (48 + n)]
      else decimal (n div 10) @ [of_int (48 + n mod 10)])"
  by pat_completeness auto
termination
  by (relation "measure nat") auto

declare decimal.simps [simp del]

function strip_zeros :: "int \<Rightarrow> int" where
  "strip_zeros x = (if 0 < x \<and> x mod 10 = 0 then strip_zeros (x div 10) else x)"
  by pat_completeness auto
termination
  by (relation "measure nat") auto

declare strip_zeros.simps [simp del]

text \<open>
  \<open>String(v)\<close> for a positive integer Number \<open>v\<close>, which is also what a template literal
  and an assignment to \<open>dataset\<close> make of it, prints the shortest digit string \<open>s\<close>
  for which \<open>s \<times> 10^j\<close> has the Number value \<open>v\<close>, and of several such \<open>s\<close> the one
  nearest to \<open>v\<close>. \<open>shortest v\<close> is that integer \<open>s \<times> 10^j\<close>: the search runs from the
  largest \<open>j\<close> down and looks at the two multiples of \<open>10^j\<close> around \<open>v\<close>. Below \<open>2^53\<close>
  it is \<open>v\<close> itself.
\<close>

fun shortest_from :: "nat \<Rightarrow> int \<Rightarrow> int" where
  "shortest_from 0 v = v"
| "shortest_from (Suc j) v =
     (let p = 10 ^ Suc j; lo = (v div p) * p; hi = lo + p
      in if round53 lo = v \<and> (round53 hi \<noteq> v \<or> v - lo \<le> hi - v) then lo
         else if round53 hi = v then hi
         else shortest_from j v)"

definition shortest :: "int \<Rightarrow> int" where
  "shortest v = shortest_from (length (decimal v)) v"

text \<open>
  The integer is printed in full when it has at most 21 digits, and otherwise in exponent
  notation: the first digit of \<open>s\<close>, a point and the other digits if there are any, and
  \<open>e+\<close> with the number of digits after the first.
\<close>

definition natToString :: "int \<Rightarrow> jsstring" where
  "natToString v =
     (let x = shortest v
      in if x < 10 ^ 21 then decimal x
         else (let s = decimal (strip_zeros x); n = length (decimal x)
               in hd s # (if tl s = [] then [] else js ''.'' @ tl s) @
                  js ''e+'' @ decimal (int n - 1)))"

text \<open>\<open>String(i)\<close> for an integer Number \<open>i\<close>.\<close>

definition intToString :: "int \<Rightarrow> jsstring" where
  "intToString i = (if i < 0 then js ''-'' @ natToString (- i) else natToString i)"

text \<open>The integer Numbers that \<open>String\<close> prints in full: those below \<open>10^21\<close> in magnitude.\<close>

definition decimal_Number :: "int \<Rightarrow> bool" where
  "decimal_Number i = (is_Number i \<and> \<bar>i\<bar> < 10 ^ 21)"

definition digit_value :: "jschar \<Rightarrow> nat option" where
  "digit_value c =
     (if 0x30 \<le> c \<and> c \<le> 0x39 then Some (unat c - 0x30)
      else if 0x61 \<le> c \<and> c \<le> 0x7A then Some (unat c - 0x61 + 10)
      else if 0x41 \<le> c \<and> c \<le> 0x5A then Some (unat c - 0x41 + 10)
      else None)"

definition radix_digit :: "nat \<Rightarrow> jschar \<Rightarrow> bool" where
  "radix_digit R c = (case digit_value c of Some d \<Rightarrow> d < R | None \<Rightarrow> False)"

definition digits_value :: "nat \<Rightarrow> jsstring \<Rightarrow> nat" where
  "digits_value R ds =
     fold (\<lambda>c acc. acc * R + (case digit_value c of Some d \<Rightarrow> d | None \<Rightarrow> 0)) ds 0"

text \<open>
  \<open>parseInt(s)\<close> without a radix: leading white space, a sign, the prefix \<open>0x\<close> for
  radix 16, then the longest run of digits, whose value is rounded to a Number. (An engine
  may round a decimal string after its 20th significant digit first; the strings that
  \<open>intToString\<close> prints in full have zeros there.)
\<close>

definition parseInt :: "jsstring \<Rightarrow> number" where
  "parseInt s =
     (let s1 = dropWhile isWhiteSpace s;
          negative = (s1 \<noteq> [] \<and> hd s1 = 0x2D);
          s2 = (if s1 \<noteq> [] \<and> (hd s1 = 0x2D \<or> hd s1 = 0x2B) then tl s1 else s1);
          hex = (startsWith s2 (js ''0x'') \<or> startsWith s2 (js ''0X''));
          R = (if hex then 16 else 10);
          s3 = (if hex then drop 2 s2 else s2);
          ds = takeWhile (radix_digit R) s3
      in if ds = [] then NotANumber
         else toNumber (if negative then - int (digits_value R ds) else int (digits_value R ds)))"

text \<open>\<open>s.replace(pattern, replacement)\<close> for a string pattern: the first occurrence only.\<close>

fun replace_first :: "jsstring \<Rightarrow> jsstring \<Rightarrow> jsstring \<Rightarrow> jsstring" where
  "replace_first [] pattern replacement = (if pattern = [] then replacement else [])"
| "replace_first (c # cs) pattern replacement =
     (if startsWith (c # cs) pattern then replacement @ drop (length pattern) (c # cs)
      else c # replace_first cs pattern replacement)"

section \<open>The article container\<close>

text \<open>
  The payloads of the line protocol: \<open>CHAPTER_DATA:{index, title, content, references}\<close>
  and \<open>CHAPTER_ERROR:{index, title, error}\<close>. The references only feed the tooltips and
  are left out; a title or content that the payload lacks is the empty text. An index is
  an integer Number, as the protocol has it. The title, the content and the error text
  are kept as the data of the element that shows them.
\<close>

record chapterData =
  chapter_index :: int
  chapter_title :: jsstring
  chapter_content :: jsstring

record errorData =
  error_index :: int
  error_title :: jsstring
  error_text :: jsstring

text \<open>
  The children of \<open>#article-display-container\<close>, in document order. An element of class
  \<open>chapter-item\<close> carries its \<open>id\<close> and its \<open>dataset.index\<close> as the strings they are in
  the DOM; it is a finished chapter (\<open>createChapterElement\<close>), a placeholder with a wave
  loader (\<open>createGeneratingChapterElement\<close>) or a skipped chapter. An element of class
  \<open>chapter-error\<close> is the block of \<open>displayChapterNetworkError\<close>.
\<close>

datatype chapter_body = Completed chapterData | Generating | Skipped

datatype element =
    Heading jsstring
  | OverallProgress
  | ChapterItem jsstring jsstring chapter_body
  | ChapterError jsstring jsstring errorData
  | CompleteBanner

fun is_chapter_item :: "element \<Rightarrow> bool" where
  "is_chapter_item (ChapterItem i d b) = True"
| "is_chapter_item e = False"

fun is_chapter_error :: "element \<Rightarrow> bool" where
  "is_chapter_error (ChapterError i d e) = True"
| "is_chapter_error e = False"

fun elem_id :: "element \<Rightarrow> jsstring" where
  "elem_id (ChapterItem i d b) = i"
| "elem_id (ChapterError i d e) = i"
| "elem_id OverallProgress = js ''overall-progress''"
| "elem_id e = []"

fun dataset_index :: "element \<Rightarrow> jsstring" where
  "dataset_index (ChapterItem i d b) = d"
| "dataset_index (ChapterError i d e) = d"
| "dataset_index e = []"

fun has_wave_loader :: "element \<Rightarrow> bool" where
  "has_wave_loader (ChapterItem i d Generating) = True"
| "has_wave_loader e = False"

definition createChapterElement :: "chapterData \<Rightarrow> int \<Rightarrow> element" where
  "createChapterElement chapterData index =
     ChapterItem (js ''chapter-'' @ intToString index) (intToString index) (Completed chapterData)"

text \<open>
  A scan of the selected elements that stops at the first one satisfying \<open>P\<close>, followed by
  \<open>container.insertBefore(new, insertPosition)\<close>, or by \<open>container.appendChild(new)\<close> when
  the scan finds none.
\<close>

fun insertBefore_first :: "(element \<Rightarrow> bool) \<Rightarrow> element \<Rightarrow> element list \<Rightarrow> element list" where
  "insertBefore_first P new [] = [new]"
| "insertBefore_first P new (e # es) =
     (if P e then new # e # es else e # insertBefore_first P new es)"

text \<open>
  The test of the loop in \<open>createCollapsibleChapter\<close> on an element of the container:
  it is selected by \<open>.chapter-item\<close> and
  \<open>parseInt(existingChapter.id.replace('chapter-', '')) > chapterData.index\<close>
  (a comparison with \<open>NaN\<close> is false).
\<close>

definition existingIndex :: "element \<Rightarrow> number" where
  "existingIndex existingChapter = parseInt (replace_first (elem_id existingChapter) (js ''chapter-'') [])"

definition chapter_exceeds :: "int \<Rightarrow> element \<Rightarrow> bool" where
  "chapter_exceeds index e =
     (is_chapter_item e \<and> exceeds (existingIndex e) index)"

text \<open>
  The test of the loop in \<open>displayChapterNetworkError\<close>, on the elements selected by
  \<open>.chapter-item, .chapter-error\<close>:
  \<open>parseInt(element.dataset.index || element.id.split('-').pop()) > errorData.index\<close>.
\<close>

definition elementIndex :: "element \<Rightarrow> number" where
  "elementIndex e =
     parseInt (if dataset_index e \<noteq> [] then dataset_index e else last (split (elem_id e) 0x2D))"

definition element_exceeds :: "int \<Rightarrow> element \<Rightarrow> bool" where
  "element_exceeds index e =
     ((is_chapter_item e \<or> is_chapter_error e) \<and> exceeds (elementIndex e) index)"

fun set_first_heading :: "jsstring \<Rightarrow> element list \<Rightarrow> element list" where
  "set_first_heading t [] = []"
| "set_first_heading t (Heading h # es) = Heading t # es"
| "set_first_heading t (e # es) = e # set_first_heading t es"

section \<open>The page and the streaming generator\<close>

text \<open>
  Exceptions: \<open>new Error(message)\<close>, the \<open>TypeError\<close> of a property read on \<open>null\<close>,
  the \<open>SyntaxError\<close> of \<open>JSON.parse\<close>, the \<open>RangeError\<close> of \<open>String.prototype.repeat\<close>,
  and the rejection of a fetch or of a read of the response body. A statement either completes or throws, in both cases leaving a state.
\<close>

datatype exn = Error jsstring | TypeError | SyntaxError | RangeError | NetworkFailure

datatype 's outcome = Normal 's | Throws exn 's


text \<open>
  Callbacks handed to \<open>setTimeout\<close>, and the bodies of the POST requests to
  \<open>/api/generate/articles\<close> (their \<open>type\<close>, outline and index).
\<close>

datatype task = ContinueGenerationFromChapter int | SaveCompleteArticleToHistory

datatype request =
    GenerateArticle jsstring
  | GenerateSingleChapter jsstring int
  | ContinueGeneration jsstring int

text \<open>
  The state that the generator reads and writes: the article container (\<open>None\<close> when the
  document has no \<open>#article-display-container\<close>), the module variables of
  generate_article.js and their copies on \<open>window\<close> (\<open>None\<close> is \<open>undefined\<close>), the text
  that \<open>window.getCurrentOutlineText()\<close> returns, the pending timers with their delay,
  and the requests sent so far. Logging, notifications, styling, scrolling, the progress
  bar's width and the reference store are effects that no branch reads; they are left
  out.
\<close>

record page =
  article_container :: "element list option"
  outlineData :: jsstring
  totalChapters :: int
  completedChaptersCount :: int
  window_outlineData :: "jsstring option"
  window_totalChapters :: "int option"
  window_completedChaptersCount :: "int option"
  currentOutlineText :: jsstring
  timers :: "(nat \<times> task) list"
  requests :: "request list"

text \<open>
  \<open>JSON.parse\<close> on the payload of a line, as a parameter: \<open>InvalidJson\<close> when it throws
  a \<open>SyntaxError\<close>, \<open>JsonNull\<close> when the payload is the JSON value \<open>null\<close>, and otherwise
  the object, of the shape that the line protocol gives.
\<close>

record json_decoder =
  parse_chapter :: "jsstring \<Rightarrow> chapterData json_body"
  parse_error :: "jsstring \<Rightarrow> errorData json_body"

definition createCollapsibleChapter :: "chapterData \<Rightarrow> page \<Rightarrow> page outcome" where
  "createCollapsibleChapter chapterData st =
     (case article_container st of
        None \<Rightarrow> Throws TypeError st
      | Some children \<Rightarrow>
          Normal (st\<lparr>article_container :=
            Some (insertBefore_first (chapter_exceeds (chapter_index chapterData))
                    (createChapterElement chapterData (chapter_index chapterData)) children)\<rparr>))"

definition displayChapterNetworkError :: "errorData \<Rightarrow> page \<Rightarrow> page outcome" where
  "displayChapterNetworkError errorData st =
     (case article_container st of
        None \<Rightarrow> Throws TypeError st
      | Some children \<Rightarrow>
          Normal (st\<lparr>article_container :=
            Some (insertBefore_first (element_exceeds (error_index errorData))
                    (ChapterError (js ''chapter-error-'' @ intToString (error_index errorData))
                       (intToString (error_index errorData)) errorData)
                    children)\<rparr>))"

text \<open>
  \<open>cleanupLoadingStates\<close> removes the chapter items that hold a wave loader; the
  indicators, overlays and the button it also resets are not part of the container's
  children.
\<close>

definition cleanupLoadingStates :: "page \<Rightarrow> page" where
  "cleanupLoadingStates st =
     st\<lparr>article_container :=
          map_option (filter (\<lambda>e. \<not> has_wave_loader e)) (article_container st)\<rparr>"


definition removeProgress :: "page \<Rightarrow> page" where
  "removeProgress st =
     st\<lparr>article_container := map_option (remove1 OverallProgress) (article_container st)\<rparr>"

definition displayArticleComplete :: "page \<Rightarrow> page" where
  "displayArticleComplete st =
     (case article_container st of
        None \<Rightarrow> st
      | Some children \<Rightarrow>
          st\<lparr>article_container :=
               Some (set_first_heading (js ''Finished!'') children @ [CompleteBanner])\<rparr>)"

text \<open>The counter that \<open>handleStreamLine\<close> increments after a chapter is rendered.\<close>

definition count_completed :: "page \<Rightarrow> page" where
  "count_completed st =
     (case window_completedChaptersCount st of
        Some n \<Rightarrow> st\<lparr>window_completedChaptersCount := Some (n + 1)\<rparr>
      | None \<Rightarrow> st\<lparr>completedChaptersCount := completedChaptersCount st + 1\<rparr>)"

definition network_error_message :: jsstring where
  "network_error_message = js ''Network error occurred, generation stopped''"

text \<open>\<open>error.message\<close>; the engine's own messages are never the one of the generator.\<close>

fun message :: "exn \<Rightarrow> jsstring option" where
  "message (Error m) = Some m"
| "message e = None"

text \<open>
  The \<open>catch\<close> block of the \<open>CHAPTER_ERROR\<close> branch: it rethrows the error of the
  generator and swallows every other one.
\<close>

fun catch_chapter_error :: "page outcome \<Rightarrow> page outcome" where
  "catch_chapter_error (Normal st) = Normal st"
| "catch_chapter_error (Throws e st) =
     (if message e = Some network_error_message then Throws e st else Normal st)"

text \<open>The \<open>catch\<close> block of the \<open>CHAPTER_DATA\<close> branch swallows every error.\<close>

fun catch_all :: "page outcome \<Rightarrow> page outcome" where
  "catch_all (Normal st) = Normal st"
| "catch_all (Throws e st) = Normal st"

text \<open>
  \<open>handleStreamLine\<close>. When the payload is \<open>null\<close>, the first read of a property of the
  parsed value throws a \<open>TypeError\<close> before the page has changed: \<open>chapterData.references\<close>
  or \<open>chapterData.index\<close> in the \<open>CHAPTER_DATA\<close> branch, and \<open>errorData.index\<close>, the first
  thing that \<open>displayChapterNetworkError\<close> evaluates after it has looked up the container,
  in the \<open>CHAPTER_ERROR\<close> branch.
\<close>

definition handleStreamLine :: "json_decoder \<Rightarrow> jsstring \<Rightarrow> page \<Rightarrow> page outcome" where
  "handleStreamLine J line st =
     (if startsWith line (js ''CHAPTER_DATA:'') then
        catch_all
          (case parse_chapter J (substring_from line (length (js ''CHAPTER_DATA:''))) of
             InvalidJson \<Rightarrow> Throws SyntaxError st
           | JsonNull \<Rightarrow> Throws TypeError st
           | JsonObject chapterData \<Rightarrow>
               (case createCollapsibleChapter chapterData st of
                  Throws e st1 \<Rightarrow> Throws e st1
                | Normal st1 \<Rightarrow> Normal (count_completed st1)))
      else if startsWith line (js ''CHAPTER_ERROR:'') then
        catch_chapter_error
          (case parse_error J (substring_from line (length (js ''CHAPTER_ERROR:''))) of
             InvalidJson \<Rightarrow> Throws SyntaxError st
           | JsonNull \<Rightarrow> Throws TypeError st
           | JsonObject errorData \<Rightarrow>
               (case displayChapterNetworkError errorData st of
                  Throws e st1 \<Rightarrow> Throws e st1
                | Normal st1 \<Rightarrow> Throws (Error network_error_message) (cleanupLoadingStates st1)))
      else if line = js ''ARTICLE_COMPLETE'' then
        (let st1 = cleanupLoadingStates (displayArticleComplete (removeProgress st))
         in Normal (st1\<lparr>timers := timers st1 @ [(1000, SaveCompleteArticleToHistory)]\<rparr>))
      else Normal st)"

section \<open>The read loop\<close>

text \<open>
  What \<open>await reader.read()\<close> gives before \<open>done\<close>: a chunk, here the text that
  \<open>decoder.decode(value, {stream: true})\<close> makes of it, or a rejection. The end of the
  list is \<open>done\<close>. The loop is modelled on its own: no other event handler changes the
  page while it waits for a read.
\<close>

datatype read_result = Value jsstring | ReadError

text \<open>
  \<open>for (const line of lines) if (line.trim()) await handleStreamLine(line.trim())\<close>,
  for any handler: a throw ends the loop.
\<close>

fun handle_lines :: "(jsstring \<Rightarrow> 's \<Rightarrow> 's outcome) \<Rightarrow> jsstring list \<Rightarrow> 's \<Rightarrow> 's outcome" where
  "handle_lines h [] st = Normal st"
| "handle_lines h (line # lines) st =
     (if trim line \<noteq> [] then
        (case h (trim line) st of
           Throws e st1 \<Rightarrow> Throws e st1
         | Normal st1 \<Rightarrow> handle_lines h lines st1)
      else handle_lines h lines st)"

text \<open>
  The \<open>while (true)\<close> loop on the reads that remain, with the buffer at hand:
  \<open>buffer += chunk; lines = buffer.split('\n'); buffer = lines.pop()\<close>, then the loop
  over \<open>lines\<close>. The result carries the buffer with which the loop ended.
\<close>

fun read_loop ::
  "(jsstring \<Rightarrow> 's \<Rightarrow> 's outcome) \<Rightarrow> read_result list \<Rightarrow> jsstring \<Rightarrow> 's \<Rightarrow> (jsstring \<times> 's) outcome" where
  "read_loop h [] buffer st = Normal (buffer, st)"
| "read_loop h (ReadError # reads) buffer st = Throws NetworkFailure (buffer, st)"
| "read_loop h (Value chunk # reads) buffer st =
     (let lines = split (buffer @ chunk) LF
      in case handle_lines h (butlast lines) st of
           Throws e st1 \<Rightarrow> Throws e (last lines, st1)
         | Normal st1 \<Rightarrow> read_loop h reads (last lines) st1)"

text \<open>The loop from the empty buffer, and the remainder handled after \<open>done\<close>.\<close>

definition read_stream ::
  "(jsstring \<Rightarrow> 's \<Rightarrow> 's outcome) \<Rightarrow> read_result list \<Rightarrow> 's \<Rightarrow> 's outcome" where
  "read_stream h reads st =
     (case read_loop h reads [] st of
        Throws e (buffer, st1) \<Rightarrow> Throws e st1
      | Normal (buffer, st1) \<Rightarrow> (if trim buffer \<noteq> [] then h (trim buffer) st1 else Normal st1))"




section \<open>Retry and continuation\<close>









section \<open>Handlers and decoders for the examples\<close>

text \<open>A handler that only records the lines it is given.\<close>

definition record_line :: "jsstring \<Rightarrow> jsstring list \<Rightarrow> jsstring list outcome" where
  "record_line line seen = Normal (seen @ [line])"

text \<open>
  A decoder that agrees with \<open>JSON.parse\<close> on the payloads of the examples: it accepts
  the objects shown and \<open>null\<close>, and rejects the empty text. The examples give it no
  other text.
\<close>

definition example_chapters :: "(jsstring \<times> chapterData) list" where
  \<open>example_chapters =
     [(js ''{"index":0,"title":"A","content":"a"}'',
       \<lparr>chapter_index = 0, chapter_title = js ''A'', chapter_content = js ''a''\<rparr>),
      (js ''{"index":1,"title":"B","content":"b"}'',
       \<lparr>chapter_index = 1, chapter_title = js ''B'', chapter_content = js ''b''\<rparr>),
      (js ''{"index":2,"title":"C","content":"c"}'',
       \<lparr>chapter_index = 2, chapter_title = js ''C'', chapter_content = js ''c''\<rparr>),
      (js ''{"index":5,"title":"F","content":"f"}'',
       \<lparr>chapter_index = 5, chapter_title = js ''F'', chapter_content = js ''f''\<rparr>),
      (js ''{"index":1e21,"title":"Z","content":"z"}'',
       \<lparr>chapter_index = 10 ^ 21, chapter_title = js ''Z'', chapter_content = js ''z''\<rparr>)]\<close>

definition example_errors :: "(jsstring \<times> errorData) list" where
  \<open>example_errors =
     [(js ''{"index":1,"title":"B","error":"timeout"}'',
       \<lparr>error_index = 1, error_title = js ''B'', error_text = js ''timeout''\<rparr>)]\<close>

definition example_parse :: "(jsstring \<times> 'a) list \<Rightarrow> jsstring \<Rightarrow> 'a json_body" where
  "example_parse objects payload =
     (case map_of objects payload of
        Some object \<Rightarrow> JsonObject object
      | None \<Rightarrow> (if payload = js ''null'' then JsonNull else InvalidJson))"

definition example_decoder :: json_decoder where
  "example_decoder =
     \<lparr>parse_chapter = example_parse example_chapters,
      parse_error = example_parse example_errors\<rparr>"



text \<open>
  The page right after \<open>initializeArticleContainer\<close> for an outline of two chapters: a
  fresh container with its two headings.
\<close>

definition example_page :: page where
  "example_page =
     \<lparr>article_container = Some [Heading (js ''Generated Article''), Heading (js ''Generating...'')],
      outlineData = js ''# A'' @ [LF] @ js ''# B'',
      totalChapters = 2,
      completedChaptersCount = 0,
      window_outlineData = Some (js ''# A'' @ [LF] @ js ''# B''),
      window_totalChapters = Some 2,
      window_completedChaptersCount = Some 0,
      currentOutlineText = js ''# A'' @ [LF] @ js ''# B'',
      timers = [],
      requests = []\<rparr>"



section \<open>The outline editor\<close>

text \<open>
  An element of class \<open>outline-block\<close> in the sidebar, as \<open>updateOutlineData\<close> reads
  it: the string in \<open>dataset.level\<close> (\<open>None\<close> when the element has no \<open>data-level\<close>
  attribute) and the \<open>textContent\<close> of its first \<open>.block-content\<close> element (\<open>None\<close>
  when it has none). \<open>make_block\<close> is the block that the editor builds for a level and a
  text.
\<close>

record outline_block =
  dataset_level :: "jsstring option"
  block_content :: "jsstring option"

definition make_block :: "int \<Rightarrow> jsstring \<Rightarrow> outline_block" where
  "make_block level text =
     \<lparr>dataset_level = Some (intToString level), block_content = Some text\<rparr>"

text \<open>
  The parsing of \<open>displayOutlineInSidebar\<close>: the lines that pass the filter
  \<open>/^#+\s/\<close>, and for each line that the heading pattern matches the pair of
  \<open>match[1].length\<close> and \<open>match[2]\<close>.
\<close>

definition outline_lines :: "jsstring \<Rightarrow> jsstring list" where
  "outline_lines outlineContent = filter test_heading_prefix (split outlineContent LF)"

definition parse_outline :: "jsstring \<Rightarrow> (int \<times> jsstring) list" where
  "parse_outline outlineContent =
     List.map_filter
       (\<lambda>line. case match_heading line of
                 None \<Rightarrow> None
               | Some (g1, g2) \<Rightarrow> Some (int (length g1), g2))
       (outline_lines outlineContent)"

text \<open>
  \<open>displayOutlineInSidebar\<close> and the Add callback fill a block by assigning a template
  to its \<open>innerHTML\<close>; the template holds the heading text twice, as the value of the
  \<open>title\<close> attribute and as the content of the \<open>.block-content\<close> span. The HTML parser
  of the browser is a parameter: for a heading text it gives the \<open>textContent\<close> that the
  span has after the assignment, and the elements of class \<open>outline-block\<close> that the
  markup of the text has created inside the block, in document order.
  \<open>innerHTML_block\<close> is what \<open>document.querySelectorAll('.outline-block')\<close> then finds
  at the block: the block itself, whose \<open>dataset.level\<close> the code has set, and the
  created elements.
\<close>

record html_parser =
  span_textContent :: "jsstring \<Rightarrow> jsstring"
  created_blocks :: "jsstring \<Rightarrow> outline_block list"

definition innerHTML_block :: "html_parser \<Rightarrow> int \<Rightarrow> jsstring \<Rightarrow> outline_block list" where
  "innerHTML_block H level text =
     make_block level (span_textContent H text) # created_blocks H text"

definition displayOutlineInSidebar_blocks :: "html_parser \<Rightarrow> jsstring \<Rightarrow> outline_block list" where
  "displayOutlineInSidebar_blocks H outlineContent =
     concat (map (\<lambda>(level, text). innerHTML_block H level text) (parse_outline outlineContent))"

text \<open>
  \<open>updateOutlineData\<close>: for each block \<open>parseInt(block.dataset.level) || 1\<close>, then the
  \<open>textContent\<close> of \<open>block.querySelector('.block-content')\<close>, a \<open>TypeError\<close> when
  there is no such element, then \<open>'#'.repeat(level) + ' ' + text\<close>, a \<open>RangeError\<close> for
  a negative or infinite level; and the lines joined by a newline.
\<close>

definition block_level :: "outline_block \<Rightarrow> number" where
  "block_level block =
     (case dataset_level block of
        None \<Rightarrow> Finite 1
      | Some level \<Rightarrow>
          (case parseInt level of
             NotANumber \<Rightarrow> Finite 1
           | Finite n \<Rightarrow> (if n = 0 then Finite 1 else Finite n)
           | PlusInfinity \<Rightarrow> PlusInfinity
           | MinusInfinity \<Rightarrow> MinusInfinity))"





text \<open>
  The value of the \<open>input type="text"\<close> of the edit dialog: the browser strips LF and CR
  from it. The dialog hands \<open>value.trim()\<close> to its callback when that is not empty, with
  a level from the four options of the select.
\<close>

definition input_value :: "jsstring \<Rightarrow> bool" where
  "input_value v = list_all (\<lambda>c. c \<noteq> 0x0A \<and> c \<noteq> 0x0D) v"





text \<open>A drag in sort mode: the block at position \<open>i\<close> is taken out and put at \<open>j\<close>.\<close>

definition move_block :: "nat \<Rightarrow> nat \<Rightarrow> outline_block list \<Rightarrow> outline_block list" where
  "move_block i j blocks =
     (let rest = take i blocks @ drop (Suc i) blocks
      in take j rest @ [blocks ! i] @ drop j rest)"

text \<open>
  The lists of blocks that the editor reaches: a loaded outline, then any sequence of Add,
  Edit, Delete and Reorder. \<open>allowed\<close> restricts the heading texts that are loaded or
  come from the dialog. The blocks are followed as the list of the \<open>li\<close> elements of the
  outline container, which they are as long as no heading text creates an element of
  class \<open>outline-block\<close> of its own; the Edit callback writes its text to \<open>textContent\<close>,
  where the HTML parser has no part.
\<close>

inductive reachable :: "html_parser \<Rightarrow> (jsstring \<Rightarrow> bool) \<Rightarrow> outline_block list \<Rightarrow> bool"
  for H :: html_parser and allowed :: "jsstring \<Rightarrow> bool" where
  Load:
    "is_String outlineContent \<Longrightarrow>
     list_all (\<lambda>(level, text). allowed text \<and> created_blocks H text = [])
       (parse_outline outlineContent) \<Longrightarrow>
     reachable H allowed (displayOutlineInSidebar_blocks H outlineContent)"
| Add:
    "reachable H allowed blocks \<Longrightarrow> input_value v \<Longrightarrow> trim v \<noteq> [] \<Longrightarrow> allowed (trim v) \<Longrightarrow>
     created_blocks H (trim v) = [] \<Longrightarrow> level \<in> {1, 2, 3, 4} \<Longrightarrow>
     reachable H allowed (blocks @ innerHTML_block H level (trim v))"
| Edit:
    "reachable H allowed blocks \<Longrightarrow> i < length blocks \<Longrightarrow> input_value v \<Longrightarrow>
     trim v \<noteq> [] \<Longrightarrow> allowed (trim v) \<Longrightarrow> level \<in> {1, 2, 3, 4} \<Longrightarrow>
     reachable H allowed (blocks[i := make_block level (trim v)])"
| Delete:
    "reachable H allowed blocks \<Longrightarrow> i < length blocks \<Longrightarrow>
     reachable H allowed (take i blocks @ drop (Suc i) blocks)"
| Reorder:
    "reachable H allowed blocks \<Longrightarrow> i < length blocks \<Longrightarrow> j < length blocks \<Longrightarrow>
     reachable H allowed (move_block i j blocks)"



section \<open>An HTML parser for the examples\<close>



section \<open>Properties of the hierarchical numbering\<close>









text \<open>
  Claim C10. The two implementations of the numbering do not agree: the reset loop of
  \<open>HistoryOutlineManager.generateHierarchicalNumbering\<close> skips the counter right below
  the current level, so the first subsection under a new section continues the count of
  the section before. On the lines \<open># A\<close>, \<open>## B\<close>, \<open># C\<close>, \<open>## D\<close> the function of
  send_topic.js numbers the last line 2.1 and the method of history_outline.js numbers it
  2.2; on lines of the levels 1, 1, 2, 1, 2, 2 the method returns 3.2 and 3.3 where the
  function returns 3.1 and 3.2.
\<close>

theorem generateHierarchicalNumbering_implementations_differ:
  "generateHierarchicalNumbering (map js [''# A'', ''## B'', ''# C'', ''## D'']) =
     map js [''1'', ''1.1'', ''2'', ''2.1''] \<and>
   HistoryOutlineManager_generateHierarchicalNumbering (map js [''# A'', ''## B'', ''# C'', ''## D'']) =
     map js [''1'', ''1.1'', ''2'', ''2.2''] \<and>
   HistoryOutlineManager_generateHierarchicalNumbering
     (map js [''# A'', ''# B'', ''## C'', ''# D'', ''## E'', ''## F'']) =
     map js [''1'', ''2'', ''2.1'', ''3'', ''3.2'', ''3.3'']"
  by code_simp

section \<open>Properties of the children test\<close>

lemma hasChildren_scan_iff:
  "hasChildren_scan ls cl \<longleftrightarrow>
     (\<exists>j < length ls. (\<exists>l. heading_level (ls ! j) = Some l \<and> cl < l) \<and>
        (\<forall>k < j. \<forall>l. heading_level (ls ! k) = Some l \<longrightarrow> \<not> l \<le> cl))"
proof (induction ls)
  case Nil
  show ?case by simp
next
  case (Cons a ls)
  show ?case
  proof (cases "match_heading a")
    case None
    then have hl: "heading_level a = None" by (simp add: heading_level_def)
    have "hasChildren_scan (a # ls) cl = hasChildren_scan ls cl" using None by simp
    also have "\<dots> \<longleftrightarrow> (\<exists>j < length ls. (\<exists>l. heading_level (ls ! j) = Some l \<and> cl < l) \<and>
        (\<forall>k < j. \<forall>l. heading_level (ls ! k) = Some l \<longrightarrow> \<not> l \<le> cl))" by (rule Cons.IH)
    also have "\<dots> \<longleftrightarrow> (\<exists>j < length (a # ls). (\<exists>l. heading_level ((a # ls) ! j) = Some l \<and> cl < l) \<and>
        (\<forall>k < j. \<forall>l. heading_level ((a # ls) ! k) = Some l \<longrightarrow> \<not> l \<le> cl))"
      (is "?L \<longleftrightarrow> ?R")
    proof
      assume ?L
      then obtain j where j: "j < length ls" "\<exists>l. heading_level (ls ! j) = Some l \<and> cl < l"
        "\<forall>k < j. \<forall>l. heading_level (ls ! k) = Some l \<longrightarrow> \<not> l \<le> cl" by blast
      have "\<forall>k < Suc j. \<forall>l. heading_level ((a # ls) ! k) = Some l \<longrightarrow> \<not> l \<le> cl"
        using j(3) hl by (auto simp: nth_Cons split: nat.splits)
      with j(1,2) show ?R by (intro exI[of _ "Suc j"]) simp
    next
      assume ?R
      then obtain j where j: "j < length (a # ls)" "\<exists>l. heading_level ((a # ls) ! j) = Some l \<and> cl < l"
        "\<forall>k < j. \<forall>l. heading_level ((a # ls) ! k) = Some l \<longrightarrow> \<not> l \<le> cl" by blast
      from j(2) hl obtain j' where j': "j = Suc j'" by (cases j) auto
      have "\<forall>k < j'. \<forall>l. heading_level (ls ! k) = Some l \<longrightarrow> \<not> l \<le> cl"
      proof (intro allI impI)
        fix k l assume "k < j'" "heading_level (ls ! k) = Some l"
        then show "\<not> l \<le> cl" using j(3)[rule_format, of "Suc k" l] j' by simp
      qed
      with j(1,2) j' show ?L by (intro exI[of _ j']) simp
    qed
    finally show ?thesis .
  next
    case (Some p)
    obtain g1 g2 where p: "p = (g1, g2)" by (cases p)
    have hl: "heading_level a = Some (length g1)" using Some p by (simp add: heading_level_def)
    show ?thesis
    proof (cases "length g1 > cl")
      case True
      then have "hasChildren_scan (a # ls) cl" using Some p by simp
      moreover have "\<exists>j < length (a # ls). (\<exists>l. heading_level ((a # ls) ! j) = Some l \<and> cl < l) \<and>
        (\<forall>k < j. \<forall>l. heading_level ((a # ls) ! k) = Some l \<longrightarrow> \<not> l \<le> cl)"
        using hl True by (intro exI[of _ 0]) simp
      ultimately show ?thesis by blast
    next
      case False
      then have "\<not> hasChildren_scan (a # ls) cl" using Some p by simp
      moreover have "\<not> (\<exists>j < length (a # ls). (\<exists>l. heading_level ((a # ls) ! j) = Some l \<and> cl < l) \<and>
        (\<forall>k < j. \<forall>l. heading_level ((a # ls) ! k) = Some l \<longrightarrow> \<not> l \<le> cl))"
      proof
        assume "\<exists>j < length (a # ls). (\<exists>l. heading_level ((a # ls) ! j) = Some l \<and> cl < l) \<and>
        (\<forall>k < j. \<forall>l. heading_level ((a # ls) ! k) = Some l \<longrightarrow> \<not> l \<le> cl)"
        then obtain j where j: "j < length (a # ls)" "\<exists>l. heading_level ((a # ls) ! j) = Some l \<and> cl < l"
        "\<forall>k < j. \<forall>l. heading_level ((a # ls) ! k) = Some l \<longrightarrow> \<not> l \<le> cl" by blast
        show False
        proof (cases j)
          case 0
          then show ?thesis using j(2) hl False by simp
        next
          case (Suc j')
          then show ?thesis using j(3)[rule_format, of 0 "length g1"] hl False by simp
        qed
      qed
      ultimately show ?thesis by blast
    qed
  qed
qed


text \<open>
  Claim C7. \<open>hasChildrenItems\<close> is true exactly when, among the lines after
  \<open>currentIndex\<close>, a heading line deeper than \<open>currentLevel\<close> comes before every heading
  line whose level is at most \<open>currentLevel\<close>. A heading line is a line that the heading
  pattern matches, its level the number of its hash marks.
\<close>

theorem hasChildrenItems_iff:
  "hasChildrenItems outlineLines currentIndex currentLevel \<longleftrightarrow>
     (\<exists>j. currentIndex < j \<and> j < length outlineLines \<and>
        (\<exists>l. heading_level (outlineLines ! j) = Some l \<and> currentLevel < l) \<and>
        (\<forall>k. currentIndex < k \<and> k < j \<longrightarrow>
           (\<forall>l. heading_level (outlineLines ! k) = Some l \<longrightarrow> \<not> l \<le> currentLevel)))"
  (is "?L \<longleftrightarrow> ?R")
proof
  assume ?L
  then obtain j where j: "j < length (drop (currentIndex + 1) outlineLines)"
      "\<exists>l. heading_level (drop (currentIndex + 1) outlineLines ! j) = Some l \<and> currentLevel < l"
      "\<forall>k < j. \<forall>l. heading_level (drop (currentIndex + 1) outlineLines ! k) = Some l
          \<longrightarrow> \<not> l \<le> currentLevel"
    unfolding hasChildrenItems_def hasChildren_scan_iff by blast
  have len: "currentIndex + 1 + j < length outlineLines" using j(1) by simp
  have "\<forall>k. currentIndex < k \<and> k < currentIndex + 1 + j \<longrightarrow>
           (\<forall>l. heading_level (outlineLines ! k) = Some l \<longrightarrow> \<not> l \<le> currentLevel)"
  proof (intro allI impI)
    fix k l
    assume k: "currentIndex < k \<and> k < currentIndex + 1 + j"
      and l: "heading_level (outlineLines ! k) = Some l"
    then obtain k' where k': "k = currentIndex + 1 + k'" "k' < j"
      by (metis Suc_eq_plus1 less_iff_Suc_add add.assoc add.commute nat_add_left_cancel_less)
    have "drop (currentIndex + 1) outlineLines ! k' = outlineLines ! k"
      using k' len by simp
    with j(3) k'(2) l show "\<not> l \<le> currentLevel" by metis
  qed
  moreover have "\<exists>l. heading_level (outlineLines ! (currentIndex + 1 + j)) = Some l \<and> currentLevel < l"
    using j(2) len by simp
  ultimately show ?R using len by (intro exI[of _ "currentIndex + 1 + j"]) simp
next
  assume ?R
  then obtain j where j: "currentIndex < j" "j < length outlineLines"
      "\<exists>l. heading_level (outlineLines ! j) = Some l \<and> currentLevel < l"
      "\<forall>k. currentIndex < k \<and> k < j \<longrightarrow>
           (\<forall>l. heading_level (outlineLines ! k) = Some l \<longrightarrow> \<not> l \<le> currentLevel)"
    by blast
  define j' where "j' = j - (currentIndex + 1)"
  have jj: "j = currentIndex + 1 + j'" using j(1) by (simp add: j'_def)
  have a: "j' < length (drop (currentIndex + 1) outlineLines)" using j(2) jj by simp
  have b: "\<exists>l. heading_level (drop (currentIndex + 1) outlineLines ! j') = Some l \<and> currentLevel < l"
    using j(3) j(2) jj by simp
  have c: "\<forall>k < j'. \<forall>l. heading_level (drop (currentIndex + 1) outlineLines ! k) = Some l
          \<longrightarrow> \<not> l \<le> currentLevel"
  proof (intro allI impI)
    fix k l
    assume k: "k < j'" and l: "heading_level (drop (currentIndex + 1) outlineLines ! k) = Some l"
    have "drop (currentIndex + 1) outlineLines ! k = outlineLines ! (currentIndex + 1 + k)"
      using k j(2) jj by simp
    with l j(4)[rule_format, of "currentIndex + 1 + k" l] k jj
    show "\<not> l \<le> currentLevel" by simp
  qed
  show ?L unfolding hasChildrenItems_def hasChildren_scan_iff using a b c by blast
qed

theorem hasChildrenItems_iff_witness:
  "hasChildrenItems (map js [''# A'', ''not a heading'', ''## B'', ''# C'']) 0 1 \<and>
   (\<exists>j. 0 < j \<and> j < length (map js [''# A'', ''not a heading'', ''## B'', ''# C'']) \<and>
      (\<exists>l. heading_level (map js [''# A'', ''not a heading'', ''## B'', ''# C''] ! j) = Some l \<and> 1 < l) \<and>
      (\<forall>k. 0 < k \<and> k < j \<longrightarrow>
         (\<forall>l. heading_level (map js [''# A'', ''not a heading'', ''## B'', ''# C''] ! k) = Some l
            \<longrightarrow> \<not> l \<le> 1))) \<and>
   \<not> hasChildrenItems (map js [''# A'', ''not a heading'', ''## B'', ''# C'']) 2 2"
proof -
  have a: "hasChildrenItems (map js [''# A'', ''not a heading'', ''## B'', ''# C'']) 0 1"
    by code_simp
  have b: "\<not> hasChildrenItems (map js [''# A'', ''not a heading'', ''## B'', ''# C'']) 2 2"
    by code_simp
  show ?thesis
    using a b hasChildrenItems_iff [of "map js [''# A'', ''not a heading'', ''## B'', ''# C'']" 0 1]
    by blast
qed

section \<open>Properties of the position manager\<close>

text \<open>
  Claim C3. When the POST of \<open>setCurrentPos(pos)\<close> fails (fetch rejects or the response is
  not 2xx) or the reply does not report the status \<open>'success'\<close>, the function returns
  \<open>false\<close> and leaves the position in memory as it was; otherwise it returns \<open>true\<close> and
  the position is \<open>pos\<close>. This holds for the function of send_topic.js on
  \<open>window.currentPos\<close> and for the method of \<open>HistoryOutlineManager\<close> on
  \<open>this.currentPos\<close>.
\<close>

theorem setCurrentPos_updates_only_on_success:
  "(request_failed r \<or> \<not> reports_success r \<longrightarrow>
      setCurrentPos pos r w = (False, w) \<and>
      getCurrentPos (snd (setCurrentPos pos r w)) = getCurrentPos w \<and>
      HistoryOutlineManager_setCurrentPos pos r m = (False, m)) \<and>
   (\<not> request_failed r \<and> reports_success r \<longrightarrow>
      setCurrentPos pos r w = (True, w\<lparr>currentPos := Some pos\<rparr>) \<and>
      getCurrentPos (snd (setCurrentPos pos r w)) = pos \<and>
      HistoryOutlineManager_setCurrentPos pos r m = (True, m\<lparr>this_currentPos := Some pos\<rparr>))"
  by (cases r; simp add: setCurrentPos_def HistoryOutlineManager_setCurrentPos_def
        request_failed_def reports_success_def getCurrentPos_def split: json_body.splits)

theorem setCurrentPos_updates_only_on_success_witness:
  "request_failed (Rejected :: pos_reply json_body fetch_result) \<and>
   setCurrentPos 5 Rejected \<lparr>currentPos = Some 2, sessionUuid = None\<rparr> =
     (False, \<lparr>currentPos = Some 2, sessionUuid = None\<rparr>) \<and>
   getCurrentPos (snd (setCurrentPos 5 Rejected \<lparr>currentPos = Some 2, sessionUuid = None\<rparr>)) = 2 \<and>
   \<not> reports_success
       (Response True (JsonObject \<lparr>status = Some (js ''error''), current_pos = None, session_uuid = None\<rparr>)) \<and>
   HistoryOutlineManager_setCurrentPos 5
       (Response True (JsonObject \<lparr>status = Some (js ''error''), current_pos = None, session_uuid = None\<rparr>))
       initial_history_manager = (False, initial_history_manager) \<and>
   \<not> request_failed
       (Response True (JsonObject \<lparr>status = Some (js ''success''), current_pos = None, session_uuid = None\<rparr>)) \<and>
   reports_success
       (Response True (JsonObject \<lparr>status = Some (js ''success''), current_pos = None, session_uuid = None\<rparr>)) \<and>
   getCurrentPos (snd (setCurrentPos 5
       (Response True (JsonObject \<lparr>status = Some (js ''success''), current_pos = None, session_uuid = None\<rparr>))
       \<lparr>currentPos = Some 2, sessionUuid = None\<rparr>)) = 5"
proof -
  have a: "request_failed (Rejected :: pos_reply json_body fetch_result)"
    by (simp add: request_failed_def)
  have b: "\<not> reports_success
       (Response True (JsonObject \<lparr>status = Some (js ''error''), current_pos = None, session_uuid = None\<rparr>))"
    by (simp add: reports_success_def js_def)
  have c: "\<not> request_failed
       (Response True (JsonObject \<lparr>status = Some (js ''success''), current_pos = None, session_uuid = None\<rparr>))"
    by (simp add: request_failed_def)
  have d: "reports_success
       (Response True (JsonObject \<lparr>status = Some (js ''success''), current_pos = None, session_uuid = None\<rparr>))"
    by (simp add: reports_success_def)
  show ?thesis
    using a b c d
      setCurrentPos_updates_only_on_success
        [of Rejected 5 "\<lparr>currentPos = Some 2, sessionUuid = None\<rparr>" initial_history_manager]
      setCurrentPos_updates_only_on_success
        [of "Response True (JsonObject \<lparr>status = Some (js ''error''), current_pos = None, session_uuid = None\<rparr>)"
            5 "\<lparr>currentPos = Some 2, sessionUuid = None\<rparr>" initial_history_manager]
      setCurrentPos_updates_only_on_success
        [of "Response True (JsonObject \<lparr>status = Some (js ''success''), current_pos = None, session_uuid = None\<rparr>)"
            5 "\<lparr>currentPos = Some 2, sessionUuid = None\<rparr>" initial_history_manager]
    by (simp add: getCurrentPos_def)
qed

text \<open>
  Claim C4, as stated, fails: send_topic.js sets \<open>window.currentPos\<close> to \<open>-1\<close> when it
  is loaded, so before any successful fetch of \<open>/api/session/current_pos\<close> (and after a
  failed one) \<open>getCurrentPos()\<close> returns \<open>-1\<close>, not \<open>0\<close>.
\<close>

theorem getCurrentPos_uninitialized_counterexample:
  "getCurrentPos initial_window_pos = - 1 \<and>
   getCurrentPos initial_window_pos \<noteq> 0 \<and>
   getCurrentPos (initializeGlobalPosManager Rejected initial_window_pos) = - 1"
  by (simp add: getCurrentPos_def initial_window_pos_def initializeGlobalPosManager_def)

text \<open>
  Claim C4, amended. \<open>getCurrentPos()\<close> returns the position held in
  \<open>window.currentPos\<close>, and \<open>0\<close> only when that global is \<open>undefined\<close>. The global is
  \<open>-1\<close> from the loading of the script on, an initialisation whose request fails or is
  not confirmed leaves it so, and a confirmed one stores the position of the reply.
\<close>

theorem getCurrentPos_returns_memory:
  "(currentPos w = Some p \<longrightarrow> getCurrentPos w = p) \<and>
   (currentPos w = None \<longrightarrow> getCurrentPos w = 0) \<and>
   (request_failed r \<or> \<not> reports_success r \<longrightarrow>
      getCurrentPos (initializeGlobalPosManager r initial_window_pos) = - 1) \<and>
   (r = Response True (JsonObject data) \<and> status data = Some (js ''success'') \<and>
    current_pos data = Some p \<longrightarrow>
      getCurrentPos (initializeGlobalPosManager r w) = p)"
  by (cases r; simp add: getCurrentPos_def initializeGlobalPosManager_def initial_window_pos_def
        request_failed_def reports_success_def split: json_body.splits)

theorem getCurrentPos_returns_memory_witness:
  "currentPos initial_window_pos = Some (- 1) \<and>
   getCurrentPos initial_window_pos = - 1 \<and>
   currentPos (initial_window_pos\<lparr>currentPos := None\<rparr>) = None \<and>
   getCurrentPos (initial_window_pos\<lparr>currentPos := None\<rparr>) = 0 \<and>
   request_failed (Response False InvalidJson :: pos_reply json_body fetch_result) \<and>
   getCurrentPos (initializeGlobalPosManager (Response False InvalidJson) initial_window_pos) = - 1 \<and>
   getCurrentPos (initializeGlobalPosManager
      (Response True (JsonObject \<lparr>status = Some (js ''success''), current_pos = Some 3, session_uuid = None\<rparr>))
      (initial_window_pos\<lparr>currentPos := None\<rparr>)) = 3"
proof -
  have a: "currentPos initial_window_pos = Some (- 1)"
    by (simp add: initial_window_pos_def)
  have b: "currentPos (initial_window_pos\<lparr>currentPos := None\<rparr>) = None"
    by simp
  have c: "request_failed (Response False InvalidJson :: pos_reply json_body fetch_result)"
    by (simp add: request_failed_def)
  show ?thesis
    using a b c
      getCurrentPos_returns_memory
        [of initial_window_pos "- 1" "Response False InvalidJson" undefined]
      getCurrentPos_returns_memory
        [of "initial_window_pos\<lparr>currentPos := None\<rparr>" 3
            "Response True (JsonObject \<lparr>status = Some (js ''success''), current_pos = Some 3, session_uuid = None\<rparr>)"
            "\<lparr>status = Some (js ''success''), current_pos = Some 3, session_uuid = None\<rparr>"]
    by simp
qed

section \<open>Properties of the read loop\<close>

lemma split_not_Nil [simp]: "split s sep \<noteq> []"
  by (induction s) (auto split: list.splits)

lemma split_append:
  "split (x @ y) sep = butlast (split x sep) @ split (last (split x sep) @ y) sep"
proof (induction x)
  case Nil
  show ?case by simp
next
  case (Cons c cs)
  show ?case
  proof (cases "c = sep")
    case True
    then show ?thesis using Cons.IH by simp
  next
    case False
    obtain s0 rest where S: "split cs sep = s0 # rest"
      by (cases "split cs sep") auto
    show ?thesis
    proof (cases rest)
      case Nil
      then show ?thesis using False S Cons.IH by simp
    next
      case (Cons r rs)
      then show ?thesis using False S Cons.IH by simp
    qed
  qed
qed

lemma last_split_no_sep: "sep \<notin> set (last (split s sep))"
proof (induction s)
  case Nil
  show ?case by simp
next
  case (Cons c cs)
  obtain s0 rest where S: "split cs sep = s0 # rest"
    by (cases "split cs sep") auto
  show ?case using Cons S by (cases rest) auto
qed

lemma split_no_sep: "sep \<notin> set s \<Longrightarrow> split s sep = [s]"
  by (induction s) (auto split: list.splits)

lemma split_lines_no_sep: "l \<in> set (split s sep) \<Longrightarrow> sep \<notin> set l"
proof (induction s arbitrary: l)
  case Nil
  then show ?case by simp
next
  case (Cons c cs)
  obtain s0 rest where S: "split cs sep = s0 # rest"
    by (cases "split cs sep") auto
  have s0: "sep \<notin> set s0" using Cons.IH[of s0] S by simp
  have r: "\<And>l. l \<in> set rest \<Longrightarrow> sep \<notin> set l" using Cons.IH S by simp
  show ?case using Cons.prems S s0 r by (auto split: if_splits)
qed

lemma concat_split:
  "concat (map (\<lambda>l. l @ [sep]) (butlast (split s sep))) @ last (split s sep) = s"
proof (induction s)
  case Nil
  show ?case by simp
next
  case (Cons c cs)
  obtain s0 rest where S: "split cs sep = s0 # rest"
    by (cases "split cs sep") auto
  show ?case using Cons S by (cases rest) auto
qed

lemma handle_lines_append:
  "handle_lines h (xs @ ys) st =
     (case handle_lines h xs st of Throws e st1 \<Rightarrow> Throws e st1 | Normal st1 \<Rightarrow> handle_lines h ys st1)"
  by (induction xs arbitrary: st) (auto split: outcome.splits)

lemma butlast_split_append:
  "butlast (split (x @ y) sep) = butlast (split x sep) @ butlast (split (last (split x sep) @ y) sep)"
  by (subst split_append) (simp add: butlast_append)

lemma last_split_append:
  "last (split (x @ y) sep) = last (split (last (split x sep) @ y) sep)"
  by (subst split_append) simp

lemma read_loop_handle_lines:
  "LF \<notin> set buffer \<Longrightarrow>
   (case read_loop h (map Value chunks) buffer st of
      Normal (b, st1) \<Rightarrow> Normal st1
    | Throws e (b, st1) \<Rightarrow> Throws e st1) =
   handle_lines h (butlast (split (buffer @ concat chunks) LF)) st"
proof (induction chunks arbitrary: buffer st)
  case Nil
  then show ?case by (simp add: split_no_sep)
next
  case (Cons c cs)
  have nb: "LF \<notin> set (last (split (buffer @ c) LF))" by (rule last_split_no_sep)
  have e: "butlast (split (buffer @ concat (c # cs)) LF) =
           butlast (split (buffer @ c) LF) @
           butlast (split (last (split (buffer @ c) LF) @ concat cs) LF)"
    using butlast_split_append[of "buffer @ c" "concat cs" LF] by simp
  show ?case
    unfolding e handle_lines_append
    using Cons.IH[OF nb]
    by (simp add: Let_def split: outcome.splits prod.splits)
qed

lemma read_loop_buffer:
  "LF \<notin> set buffer \<Longrightarrow> read_loop h (map Value chunks) buffer st = Normal (b, st1) \<Longrightarrow>
   b = last (split (buffer @ concat chunks) LF)"
proof (induction chunks arbitrary: buffer st)
  case Nil
  then show ?case by (simp add: split_no_sep)
next
  case (Cons c cs)
  have nb: "LF \<notin> set (last (split (buffer @ c) LF))" by (rule last_split_no_sep)
  have e: "last (split (buffer @ concat (c # cs)) LF) =
           last (split (last (split (buffer @ c) LF) @ concat cs) LF)"
    using last_split_append[of "buffer @ c" "concat cs" LF] by simp
  from Cons.prems(2) obtain st2 where
    "read_loop h (map Value cs) (last (split (buffer @ c) LF)) st2 = Normal (b, st1)"
    by (auto simp: Let_def split: outcome.splits)
  from Cons.IH[OF nb this] show ?case unfolding e .
qed

lemma handle_lines_last:
  "handle_lines h [l] st = (if trim l \<noteq> [] then h (trim l) st else Normal st)"
  by (simp split: outcome.splits)

lemma read_stream_handle_lines:
  "read_stream h (map Value chunks) st = handle_lines h (split (concat chunks) LF) st"
proof -
  have s: "split (concat chunks) LF =
           butlast (split (concat chunks) LF) @ [last (split (concat chunks) LF)]"
    by simp
  have n: "LF \<notin> set ([] :: jsstring)" by simp
  show ?thesis
  proof (cases "read_loop h (map Value chunks) [] st")
    case (Normal p)
    obtain b st1 where p: "p = (b, st1)" by (cases p)
    have b: "b = last (split (concat chunks) LF)"
      using read_loop_buffer[OF n, of h chunks st b st1] Normal p by simp
    have h: "handle_lines h (butlast (split (concat chunks) LF)) st = Normal st1"
      using read_loop_handle_lines[OF n, of h chunks st] Normal p by simp
    show ?thesis
      apply (subst s)
      unfolding handle_lines_append h
      using Normal p b by (simp add: read_stream_def split: outcome.splits)
  next
    case (Throws e p)
    obtain b st1 where p: "p = (b, st1)" by (cases p)
    have h: "handle_lines h (butlast (split (concat chunks) LF)) st = Throws e st1"
      using read_loop_handle_lines[OF n, of h chunks st] Throws p by simp
    show ?thesis
      apply (subst s)
      unfolding handle_lines_append h
      using Throws p by (simp add: read_stream_def)
  qed
qed

lemma split_trailing:
  "s = last (split s sep) \<or> (\<exists>pre. s = pre @ [sep] @ last (split s sep))"
proof (cases "butlast (split s sep)" rule: rev_cases)
  case Nil
  then show ?thesis using concat_split[of sep s] by simp
next
  case (snoc ls l)
  have "s = (concat (map (\<lambda>l. l @ [sep]) ls) @ l) @ [sep] @ last (split s sep)"
    using concat_split[of sep s] snoc by simp
  then show ?thesis by blast
qed

lemma handle_lines_record_line:
  "handle_lines record_line lines seen =
     Normal (seen @ map trim (filter (\<lambda>l. trim l \<noteq> []) lines))"
  by (induction lines arbitrary: seen) (simp_all add: record_line_def)

text \<open>
  Claim C8, amended. In the read loop, after each chunk the buffer is exactly the text
  after the last newline decoded so far; the complete lines split off so far, each
  followed by its newline, and then the buffer make up the text decoded so far; the
  handler is given the complete lines only, and once the stream is done the remainder,
  once. What the handler receives of a line is the trimmed line, and a blank line or a
  blank remainder is not handed over at all.
\<close>

theorem read_loop_buffer_invariant:
  "(read_loop h (map Value chunks) [] st = Normal (buffer, st1) \<longrightarrow>
      buffer = last (split (concat chunks) LF) \<and>
      LF \<notin> set buffer \<and>
      (concat chunks = buffer \<or> (\<exists>pre. concat chunks = pre @ [LF] @ buffer)) \<and>
      concat (map (\<lambda>l. l @ [LF]) (butlast (split (concat chunks) LF))) @ buffer = concat chunks \<and>
      handle_lines h (butlast (split (concat chunks) LF)) st = Normal st1) \<and>
   read_stream h (map Value chunks) st = handle_lines h (split (concat chunks) LF) st \<and>
   handle_lines record_line lines seen =
      Normal (seen @ map trim (filter (\<lambda>l. trim l \<noteq> []) lines))"
proof (intro conjI impI)
  assume a: "read_loop h (map Value chunks) [] st = Normal (buffer, st1)"
  have n: "LF \<notin> set ([] :: jsstring)" by simp
  show b: "buffer = last (split (concat chunks) LF)"
    using read_loop_buffer[OF n a] by simp
  show "LF \<notin> set buffer" unfolding b by (rule last_split_no_sep)
  show "concat chunks = buffer \<or> (\<exists>pre. concat chunks = pre @ [LF] @ buffer)"
    unfolding b by (rule split_trailing)
  show "concat (map (\<lambda>l. l @ [LF]) (butlast (split (concat chunks) LF))) @ buffer = concat chunks"
    unfolding b by (rule concat_split)
  show "handle_lines h (butlast (split (concat chunks) LF)) st = Normal st1"
    using read_loop_handle_lines[OF n, of h chunks st] a by simp
next
  show "read_stream h (map Value chunks) st = handle_lines h (split (concat chunks) LF) st"
    by (rule read_stream_handle_lines)
next
  show "handle_lines record_line lines seen =
      Normal (seen @ map trim (filter (\<lambda>l. trim l \<noteq> []) lines))"
    by (rule handle_lines_record_line)
qed

theorem read_loop_buffer_invariant_witness:
  "read_loop record_line (map Value [js '' a '' @ [LF, LF], js ''b'']) [] [] =
     Normal (js ''b'', [js ''a'']) \<and>
   js ''b'' = last (split (concat [js '' a '' @ [LF, LF], js ''b'']) LF) \<and>
   concat (map (\<lambda>l. l @ [LF]) (butlast (split (concat [js '' a '' @ [LF, LF], js ''b'']) LF))) @ js ''b'' =
     concat [js '' a '' @ [LF, LF], js ''b''] \<and>
   handle_lines record_line (butlast (split (concat [js '' a '' @ [LF, LF], js ''b'']) LF)) [] =
     Normal [js ''a'']"
proof -
  have a: "read_loop record_line (map Value [js '' a '' @ [LF, LF], js ''b'']) [] [] =
     Normal (js ''b'', [js ''a''])"
    by code_simp
  show ?thesis
    using a read_loop_buffer_invariant
      [of record_line "[js '' a '' @ [LF, LF], js ''b'']" "[]" "js ''b''" "[js ''a'']"]
    by blast
qed

text \<open>
  Claim C8, as stated, fails: the lines that \<open>handleStreamLine\<close> processes are trimmed,
  blank lines are skipped and the newlines are gone, so their concatenation with the
  buffer is not the text decoded so far, with or without a newline after each line; and
  a remainder that is not empty but blank is not processed when the stream ends.
\<close>

theorem processed_lines_concatenation_counterexample:
  "read_loop record_line [Value (js '' a '' @ [LF, LF]), Value (js ''b'')] [] [] =
     Normal (js ''b'', [js ''a'']) \<and>
   concat [js ''a''] @ js ''b'' \<noteq> concat [js '' a '' @ [LF, LF], js ''b''] \<and>
   concat (map (\<lambda>l. l @ [LF]) [js ''a'']) @ js ''b'' \<noteq> concat [js '' a '' @ [LF, LF], js ''b''] \<and>
   read_loop record_line [Value (js ''a'' @ [LF]), Value (js '' '')] [] [] =
     Normal (js '' '', [js ''a'']) \<and>
   read_stream record_line [Value (js ''a'' @ [LF]), Value (js '' '')] [] = Normal [js ''a'']"
  by code_simp

section \<open>Properties of the stream handler\<close>

lemma startsWith_append [simp]: "startsWith (p @ x) p"
  by (simp add: startsWith_def)

lemma error_line_not_data [simp]:
  "\<not> startsWith (js ''CHAPTER_ERROR:'' @ x) (js ''CHAPTER_DATA:'')"
  by (simp add: startsWith_def js_def)











section \<open>Properties of the chapter insertion\<close>

lemma bit_length_pos: "0 < n \<Longrightarrow> bit_length n = Suc (bit_length (n div 2))"
  by (subst bit_length.simps) simp

lemma bit_length_nonpos: "n \<le> 0 \<Longrightarrow> bit_length n = 0"
  by (subst bit_length.simps) simp

lemma bit_length_bounds:
  "0 < n \<Longrightarrow> 2 ^ (bit_length n - 1) \<le> n \<and> n < 2 ^ bit_length n"
proof (induction n rule: bit_length.induct)
  case (1 n)
  show ?case
  proof (cases "n div 2 = 0")
    case True
    then have n: "n = 1" using 1(2) by presburger
    have "bit_length (1::int) = 1"
      by (simp add: bit_length_pos bit_length_nonpos)
    then show ?thesis using n by simp
  next
    case False
    then have p: "0 < n div 2" using 1(2) by presburger
    have ih: "2 ^ (bit_length (n div 2) - 1) \<le> n div 2 \<and> n div 2 < 2 ^ bit_length (n div 2)"
      using 1(1) 1(2) p by simp
    obtain b where b: "bit_length (n div 2) = Suc b"
      using p by (cases "bit_length (n div 2)") (simp_all add: bit_length_pos)
    have bl: "bit_length n = Suc (Suc b)" using 1(2) b by (simp add: bit_length_pos)
    have "2 * 2 ^ b \<le> n" using ih b by simp presburger
    moreover have "n < 2 * (2 * 2 ^ b)" using ih b by simp presburger
    ultimately show ?thesis using bl by simp
  qed
qed

lemma bit_length_gt: "2 ^ k \<le> n \<Longrightarrow> k < bit_length n"
proof -
  assume a: "(2::int) ^ k \<le> n"
  then have p: "0 < n" by (smt (verit) zero_less_power)
  have "n < 2 ^ bit_length n" using bit_length_bounds[OF p] by simp
  with a have "(2::int) ^ k < 2 ^ bit_length n" by linarith
  then show ?thesis by (rule power_less_imp_less_exp[rotated]) simp
qed

lemma bit_length_le: "0 \<le> n \<Longrightarrow> n < 2 ^ k \<Longrightarrow> bit_length n \<le> k"
proof (cases "n = 0")
  case True
  then show ?thesis by (simp add: bit_length_nonpos)
next
  case False
  assume a: "0 \<le> n" "n < 2 ^ k"
  then have p: "0 < n" using False by simp
  have "2 ^ (bit_length n - 1) \<le> n" using bit_length_bounds[OF p] by simp
  with a have "(2::int) ^ (bit_length n - 1) < 2 ^ k" by linarith
  then have "bit_length n - 1 < k" by (rule power_less_imp_less_exp[rotated]) simp
  then show ?thesis by simp
qed

lemma int_div_bounds:
  assumes "0 < (b::int)"
  shows "(x div b) * b \<le> x" "x < (x div b + 1) * b"
proof -
  have e: "x = (x div b) * b + x mod b" by simp
  have m: "0 \<le> x mod b" "x mod b < b" using assms by simp_all
  show "(x div b) * b \<le> x" using e m(1) by linarith
  have "(x div b + 1) * b = (x div b) * b + b" by (simp add: distrib_right)
  then show "x < (x div b + 1) * b" using e m(2) by linarith
qed

lemma int_div_ge:
  assumes "0 < (b::int)" "a * b \<le> x"
  shows "a \<le> x div b"
proof (rule ccontr)
  assume "\<not> a \<le> x div b"
  then have "x div b + 1 \<le> a" by simp
  then have "(x div b + 1) * b \<le> a * b" using assms(1) by (simp add: mult_right_mono)
  then show False using int_div_bounds(2)[OF assms(1), of x] assms(2) by linarith
qed

lemma int_div_less:
  assumes "0 < (b::int)" "x < a * b"
  shows "x div b < a"
proof (rule ccontr)
  assume "\<not> x div b < a"
  then have "a \<le> x div b" by simp
  then have "a * b \<le> (x div b) * b" using assms(1) by (simp add: mult_right_mono)
  then show False using int_div_bounds(1)[OF assms(1), of x] assms(2) by linarith
qed

lemma round53_parts:
  assumes "2 ^ 53 \<le> x"
  defines "e \<equiv> bit_length x - 53"
  shows "1 \<le> e" "2 ^ 52 \<le> x div 2 ^ e" "x div 2 ^ e < 2 ^ 53"
proof -
  have p: "0 < x" using assms(1) by (smt (verit) zero_less_power)
  have b: "53 < bit_length x" using bit_length_gt[OF assms(1)] .
  then show e1: "1 \<le> e" by (simp add: e_def)
  have bl: "bit_length x = e + 53" using b by (simp add: e_def)
  have lo: "2 ^ (e + 52) \<le> x" using bit_length_bounds[OF p] bl by (simp add: add.commute)
  have hi: "x < 2 ^ (e + 53)" using bit_length_bounds[OF p] bl by simp
  have "(2::int) ^ (e + 52) = 2 ^ 52 * 2 ^ e" by (simp add: power_add)
  then have "2 ^ 52 * 2 ^ e \<le> x" using lo by simp
  then show "2 ^ 52 \<le> x div 2 ^ e"
    by (intro int_div_ge) simp_all
  have "(2::int) ^ (e + 53) = 2 ^ 53 * 2 ^ e" by (simp add: power_add)
  then have "x < 2 ^ 53 * 2 ^ e" using hi by simp
  then show "x div 2 ^ e < 2 ^ 53"
    by (intro int_div_less) simp_all
qed

lemma round53_small: "x < 2 ^ 53 \<Longrightarrow> round53 x = x"
  by (simp add: round53_def)

lemma round53_ge_floor:
  assumes "2 ^ 53 \<le> x"
  shows "(x div 2 ^ (bit_length x - 53)) * 2 ^ (bit_length x - 53) \<le> round53 x"
proof -
  have "\<not> x < 2 ^ 53" using assms by simp
  then show ?thesis
    by (simp add: round53_def Let_def distrib_right)
qed

lemma round53_large: "2 ^ 53 \<le> x \<Longrightarrow> 2 ^ 53 \<le> round53 x"
proof -
  assume a: "2 ^ 53 \<le> x"
  let ?e = "bit_length x - 53"
  have q: "2 ^ 52 \<le> x div 2 ^ ?e" and e: "1 \<le> ?e" using round53_parts[OF a] by simp_all
  have "(2::int) ^ 1 \<le> 2 ^ ?e" using e by (intro power_increasing) simp_all
  then have "(2::int) ^ 52 * 2 \<le> (x div 2 ^ ?e) * 2 ^ ?e"
    using q by (intro mult_mono) simp_all
  then show ?thesis using round53_ge_floor[OF a] by simp
qed

lemma is_Number_round53:
  assumes "0 \<le> v" "2 ^ (bit_length v - 53) dvd v"
  shows "round53 v = v"
proof (cases "v < 2 ^ 53")
  case True
  then show ?thesis by (rule round53_small)
next
  case False
  have m: "v mod 2 ^ (bit_length v - 53) = 0" using assms(2) by simp
  have "v div 2 ^ (bit_length v - 53) * 2 ^ (bit_length v - 53) = v"
    using assms(2) by simp
  then show ?thesis using False m by (simp add: round53_def Let_def)
qed

lemma round53_mono_Number:
  assumes d: "2 ^ (bit_length d - 53) dvd d" and dx: "d \<le> x"
  shows "d \<le> round53 x"
proof (cases "x < 2 ^ 53")
  case True
  then show ?thesis using dx by (simp add: round53_small)
next
  case False
  then have a: "2 ^ 53 \<le> x" by simp
  let ?e = "bit_length x - 53"
  let ?q = "x div 2 ^ ?e"
  have q: "2 ^ 52 \<le> ?q" using round53_parts[OF a] by simp
  have fl: "?q * 2 ^ ?e \<le> round53 x" by (rule round53_ge_floor[OF a])
  show ?thesis
  proof (cases "d \<le> ?q * 2 ^ ?e")
    case True
    then show ?thesis using fl by simp
  next
    case False
    then have gt: "?q * 2 ^ ?e < d" by simp
    have "(2::int) ^ (52 + ?e) = 2 ^ 52 * 2 ^ ?e" by (simp add: power_add)
    also have "\<dots> \<le> ?q * 2 ^ ?e" using q by (intro mult_right_mono) simp_all
    finally have "2 ^ (52 + ?e) \<le> d" using gt by simp
    then have "52 + ?e < bit_length d" by (rule bit_length_gt)
    then have "?e \<le> bit_length d - 53" by simp
    then have "(2::int) ^ ?e dvd 2 ^ (bit_length d - 53)" by (rule le_imp_power_dvd)
    then have "2 ^ ?e dvd d" using d by (rule dvd_trans)
    then obtain m where m: "d = m * 2 ^ ?e" by (auto simp: dvd_def mult.commute)
    have p: "(0::int) < 2 ^ ?e" by simp
    have "?q < m" using gt m p by (simp add: mult_less_cancel_right)
    then have "?q + 1 \<le> m" by simp
    then have "(?q + 1) * 2 ^ ?e \<le> d" unfolding m using p by (simp add: mult_right_mono)
    then have "(?q + 1) * 2 ^ ?e \<le> x" using dx by simp
    then show ?thesis using int_div_bounds(2)[OF p, of x] by simp
  qed
qed

lemma shortest_from_round53:
  "round53 v = v \<Longrightarrow> round53 (shortest_from j v) = v"
  by (induction j) (auto simp: Let_def)

lemma shortest_from_nonneg: "0 \<le> v \<Longrightarrow> 0 \<le> shortest_from j v"
proof (induction j)
  case 0
  then show ?case by simp
next
  case (Suc j)
  have "0 \<le> v div 10 ^ Suc j" using Suc.prems by (simp add: pos_imp_zdiv_nonneg_iff)
  then have "0 \<le> v div 10 ^ Suc j * 10 ^ Suc j" by simp
  then show ?case using Suc by (auto simp: Let_def)
qed

lemma Number_10_21: "2 ^ (bit_length (10 ^ 21) - 53) dvd (10 ^ 21 :: int)"
  by code_simp

lemma shortest_below:
  assumes "0 \<le> v" "v < 10 ^ 21" "round53 v = v"
  shows "0 \<le> shortest v \<and> shortest v < 10 ^ 21 \<and> round53 (shortest v) = v"
proof -
  have r: "round53 (shortest v) = v" unfolding shortest_def by (rule shortest_from_round53[OF assms(3)])
  have n: "0 \<le> shortest v" unfolding shortest_def by (rule shortest_from_nonneg[OF assms(1)])
  have "shortest v < 10 ^ 21"
  proof (rule ccontr)
    assume "\<not> shortest v < 10 ^ 21"
    then have "10 ^ 21 \<le> shortest v" by simp
    then have "10 ^ 21 \<le> round53 (shortest v)" by (rule round53_mono_Number[OF Number_10_21])
    then show False using r assms(2) by simp
  qed
  then show ?thesis using r n by simp
qed


lemma digit_cases: "d < 10 \<Longrightarrow> d \<in> {0, 1, 2, 3, 4, 5, 6, 7, 8, 9 :: nat}"
  by auto

lemma digit_value_digit: "d < 10 \<Longrightarrow> digit_value (48 + of_nat d) = Some d"
  using digit_cases[of d] by (auto simp: digit_value_def)

lemma radix_digit_digit: "d < 10 \<Longrightarrow> radix_digit 10 (48 + of_nat d)"
  by (simp add: radix_digit_def digit_value_digit)

lemma digit_not_space: "d < 10 \<Longrightarrow> \<not> isWhiteSpace (48 + of_nat d)"
  using digit_cases[of d] by (auto simp: isWhiteSpace_def isLineTerminator_def)

lemma digit_not_sign: "d < 10 \<Longrightarrow> (48 + of_nat d :: jschar) \<noteq> 0x2D \<and> (48 + of_nat d :: jschar) \<noteq> 0x2B"
  using digit_cases[of d] by auto

lemma numToString_not_Nil: "numToString n \<noteq> []"
  by (subst numToString.simps) simp

lemma numToString_digits: "list_all (radix_digit 10) (numToString n)"
proof (induction n rule: numToString.induct)
  case (1 n)
  show ?case
    by (subst numToString.simps) (use 1 in \<open>simp add: radix_digit_digit\<close>)
qed

lemma hd_numToString: "\<exists>d < 10. hd (numToString n) = 48 + of_nat d"
proof (induction n rule: numToString.induct)
  case (1 n)
  show ?case
  proof (cases "n < 10")
    case True
    then show ?thesis by (subst numToString.simps) auto
  next
    case False
    then show ?thesis
      using 1 numToString_not_Nil[of "n div 10"]
      by (subst numToString.simps) simp
  qed
qed

lemma digits_value_append:
  "digits_value R (xs @ [c]) = digits_value R xs * R + (case digit_value c of Some d \<Rightarrow> d | None \<Rightarrow> 0)"
  by (simp add: digits_value_def)

lemma digits_value_numToString: "digits_value 10 (numToString n) = n"
proof (induction n rule: numToString.induct)
  case (1 n)
  show ?case
  proof (cases "n < 10")
    case True
    then show ?thesis
      by (subst numToString.simps) (simp add: digits_value_def digit_value_digit)
  next
    case False
    then show ?thesis
      using 1 by (subst numToString.simps) (simp add: digits_value_append digit_value_digit)
  qed
qed

lemma not_digit_x: "\<not> radix_digit 10 0x78" "\<not> radix_digit 10 0x58"
  by (simp_all add: radix_digit_def digit_value_def)

lemma numToString_no_hex_prefix:
  "\<not> startsWith (numToString n) (js ''0x'')" "\<not> startsWith (numToString n) (js ''0X'')"
proof -
  have a: "list_all (radix_digit 10) (take 2 (numToString n))"
    using numToString_digits[of n] by (simp add: list_all_iff) (meson in_set_takeD)
  show "\<not> startsWith (numToString n) (js ''0x'')"
  proof
    assume "startsWith (numToString n) (js ''0x'')"
    then have "take 2 (numToString n) = [0x30, 0x78]" by (simp add: startsWith_def js_def numeral_2_eq_2)
    with a show False using not_digit_x by simp
  qed
  show "\<not> startsWith (numToString n) (js ''0X'')"
  proof
    assume "startsWith (numToString n) (js ''0X'')"
    then have "take 2 (numToString n) = [0x30, 0x58]" by (simp add: startsWith_def js_def numeral_2_eq_2)
    with a show False using not_digit_x by simp
  qed
qed

lemma parseInt_digits:
  assumes "s \<noteq> []" "list_all (radix_digit 10) s" "\<not> isWhiteSpace (hd s)"
    "hd s \<noteq> 0x2D" "hd s \<noteq> 0x2B"
    "\<not> startsWith s (js ''0x'')" "\<not> startsWith s (js ''0X'')"
  shows "parseInt s = toNumber (int (digits_value 10 s))"
proof -
  obtain c cs where s: "s = c # cs" using assms(1) by (cases s) auto
  have dw: "dropWhile isWhiteSpace s = s" using s assms(3) by simp
  have tw: "takeWhile (radix_digit 10) s = s" using assms(2) by (simp add: list_all_iff)
  show ?thesis
    unfolding parseInt_def dw Let_def
    using assms(1,4,5,6,7) by (simp add: tw)
qed

lemma parseInt_numToString: "parseInt (numToString n) = toNumber (int n)"
proof -
  obtain d where d: "d < 10" "hd (numToString n) = 48 + of_nat d"
    using hd_numToString by blast
  show ?thesis
    using parseInt_digits[OF numToString_not_Nil numToString_digits, of n]
      d digit_not_space[OF d(1)] digit_not_sign[OF d(1)] numToString_no_hex_prefix[of n]
    by (simp add: digits_value_numToString)
qed

lemma parseInt_minus_digits:
  assumes "s \<noteq> []" "list_all (radix_digit 10) s"
    "\<not> startsWith s (js ''0x'')" "\<not> startsWith s (js ''0X'')"
  shows "parseInt (0x2D # s) = toNumber (- int (digits_value 10 s))"
proof -
  have ws: "\<not> isWhiteSpace 0x2D" by (simp add: isWhiteSpace_def isLineTerminator_def)
  have dw: "dropWhile isWhiteSpace (0x2D # s) = 0x2D # s" using ws by simp
  have tw: "takeWhile (radix_digit 10) s = s" using assms(2) by (simp add: list_all_iff)
  show ?thesis
    unfolding parseInt_def dw Let_def
    using assms(1,3,4) by (simp add: tw)
qed

lemma parseInt_minus_numToString: "parseInt (0x2D # numToString n) = toNumber (- int n)"
  using parseInt_minus_digits[OF numToString_not_Nil numToString_digits, of n]
    numToString_no_hex_prefix[of n]
  by (simp add: digits_value_numToString)

lemma decimal_numToString: "0 \<le> x \<Longrightarrow> decimal x = numToString (nat x)"
proof (induction x rule: decimal.induct)
  case (1 n)
  show ?case
  proof (cases "n < 10")
    case True
    have "(of_int (48 + n) :: jschar) = of_nat (48 + nat n)"
      using 1(2) by (metis int_nat_eq of_int_of_nat_eq of_nat_add of_nat_numeral)
    moreover have "nat n < 10" using True by simp
    ultimately show ?thesis using True
      by (subst decimal.simps, subst numToString.simps) simp
  next
    case False
    have ih: "decimal (n div 10) = numToString (nat (n div 10))"
      using 1(1) False 1(2) by (simp add: pos_imp_zdiv_nonneg_iff)
    have d: "nat (n div 10) = nat n div 10" by (simp add: nat_div_distrib)
    have m0: "0 \<le> n mod 10" by simp
    have m: "nat (n mod 10) = nat n mod 10" using 1(2) by (simp add: nat_mod_distrib)
    have "(of_int (48 + n mod 10) :: jschar) = of_nat (48 + nat (n mod 10))"
      using m0 by (metis int_nat_eq of_int_of_nat_eq of_nat_add of_nat_numeral)
    then have c: "(of_int (48 + n mod 10) :: jschar) = of_nat (48 + nat n mod 10)"
      using m by simp
    have nn: "\<not> nat n < 10" using False by simp
    show ?thesis using False nn ih d c
      by (subst decimal.simps, subst numToString.simps) simp
  qed
qed

lemma toNumber_Finite:
  assumes "0 \<le> x" "round53 x = v" "v < 2 ^ 1024"
  shows "toNumber x = Finite v" "toNumber (- x) = Finite (- v)"
proof -
  show "toNumber x = Finite v" using assms by (simp add: toNumber_def)
  have z: "round53 0 = 0" by (simp add: round53_def)
  show "toNumber (- x) = Finite (- v)"
  proof (cases "x = 0")
    case True
    then show ?thesis using assms z by (simp add: toNumber_def)
  next
    case False
    then have "- x < 0" "\<bar>- x\<bar> = x" using assms(1) by simp_all
    then show ?thesis using assms by (simp add: toNumber_def)
  qed
qed

lemma parseInt_natToString:
  assumes "0 \<le> v" "v < 10 ^ 21" "round53 v = v"
  shows "natToString v = decimal (shortest v)"
    and "parseInt (natToString v) = Finite v"
    and "parseInt (0x2D # natToString v) = Finite (- v)"
proof -
  have s: "0 \<le> shortest v" "shortest v < 10 ^ 21" "round53 (shortest v) = v"
    using shortest_below[OF assms] by simp_all
  show n: "natToString v = decimal (shortest v)" using s(2) by (simp add: natToString_def)
  have d: "decimal (shortest v) = numToString (nat (shortest v))"
    by (rule decimal_numToString[OF s(1)])
  have b: "v < 2 ^ 1024" using assms(2) by simp
  have i: "int (nat (shortest v)) = shortest v" using s(1) by simp
  show "parseInt (natToString v) = Finite v"
    unfolding n d parseInt_numToString i by (rule toNumber_Finite(1)[OF s(1) s(3) b])
  show "parseInt (0x2D # natToString v) = Finite (- v)"
    unfolding n d parseInt_minus_numToString i by (rule toNumber_Finite(2)[OF s(1) s(3) b])
qed

lemma is_Number_abs:
  assumes "is_Number i"
  shows "round53 \<bar>i\<bar> = \<bar>i\<bar>"
proof -
  have "2 ^ (bit_length \<bar>i\<bar> - 53) dvd \<bar>i\<bar>" using assms by (simp add: is_Number_def)
  then show ?thesis by (intro is_Number_round53) simp_all
qed

lemma parseInt_intToString:
  assumes "is_Number i" "\<bar>i\<bar> < 10 ^ 21"
  shows "parseInt (intToString i) = Finite i"
proof (cases "i < 0")
  case True
  have r: "round53 (- i) = - i" using is_Number_abs[OF assms(1)] True by simp
  have "parseInt (0x2D # natToString (- i)) = Finite (- (- i))"
    using True assms(2) by (intro parseInt_natToString(3) r) simp_all
  then show ?thesis using True by (simp add: intToString_def js_def)
next
  case False
  have r: "round53 i = i" using is_Number_abs[OF assms(1)] False by simp
  have "parseInt (natToString i) = Finite i"
    using False assms(2) by (intro parseInt_natToString(2) r) simp_all
  then show ?thesis using False by (simp add: intToString_def)
qed

lemma is_Number_small: "\<bar>i\<bar> < 2 ^ 53 \<Longrightarrow> is_Number i"
proof -
  assume a: "\<bar>i\<bar> < 2 ^ 53"
  have "bit_length \<bar>i\<bar> \<le> 53" using a by (intro bit_length_le) simp_all
  then have "bit_length \<bar>i\<bar> - 53 = 0" by simp
  moreover have "\<bar>i\<bar> < 2 ^ 1024" using a by simp
  ultimately show ?thesis by (simp add: is_Number_def)
qed

lemma decimal_Number_small: "\<bar>i\<bar> < 2 ^ 53 \<Longrightarrow> decimal_Number i"
  using is_Number_small[of i] by (simp add: decimal_Number_def)









lemma data_line_not_error [simp]:
  "startsWith (js ''CHAPTER_DATA:'' @ x) (js ''CHAPTER_DATA:'')"
  by (simp add: startsWith_def)


lemma article_container_count_completed [simp]:
  "article_container (count_completed st) = article_container st"
  by (simp add: count_completed_def split: option.splits)




text \<open>
  Claim C5, as stated, fails for an index that \<open>String\<close> prints in exponent notation:
  the chapter of index \<open>10^21\<close> gets the \<open>id\<close> \<open>chapter-1e+21\<close>, from which
  \<open>parseInt\<close> reads the index 1. A chapter of index 5 that arrives next finds no chapter
  item whose index exceeds 5 and is appended, so the chapter of index \<open>10^21\<close> stands
  before the chapter of index 5.
\<close>

theorem createCollapsibleChapter_exponent_id_counterexample:
  \<open>is_Number (10 ^ 21) \<and>
   createChapterElement
     \<lparr>chapter_index = 10 ^ 21, chapter_title = js ''Z'', chapter_content = js ''z''\<rparr> (10 ^ 21) =
     ChapterItem (js ''chapter-1e+21'') (js ''1e+21'')
       (Completed \<lparr>chapter_index = 10 ^ 21, chapter_title = js ''Z'', chapter_content = js ''z''\<rparr>) \<and>
   existingIndex (ChapterItem (js ''chapter-1e+21'') (js ''1e+21'')
       (Completed \<lparr>chapter_index = 10 ^ 21, chapter_title = js ''Z'', chapter_content = js ''z''\<rparr>)) =
     Finite 1 \<and>
   handle_lines (handleStreamLine example_decoder)
     [js ''CHAPTER_DATA:{"index":1e21,"title":"Z","content":"z"}'',
      js ''CHAPTER_DATA:{"index":5,"title":"F","content":"f"}'']
     example_page =
   Normal (example_page
     \<lparr>article_container :=
        Some [Heading (js ''Generated Article''), Heading (js ''Generating...''),
              ChapterItem (js ''chapter-1e+21'') (js ''1e+21'')
                (Completed \<lparr>chapter_index = 10 ^ 21, chapter_title = js ''Z'', chapter_content = js ''z''\<rparr>),
              ChapterItem (js ''chapter-5'') (js ''5'')
                (Completed \<lparr>chapter_index = 5, chapter_title = js ''F'', chapter_content = js ''f''\<rparr>)],
      window_completedChaptersCount := Some 2\<rparr>) \<and>
   \<not> sorted [10 ^ 21, 5 :: int]\<close>
  by code_simp

section \<open>Properties of retry and continuation\<close>











section \<open>Properties of the outline editor\<close>
















lemma block_level_make:
  "1 \<le> level \<Longrightarrow> level < 2 ^ 53 \<Longrightarrow> block_level (make_block level t) = Finite level"
  using parseInt_intToString[of level] decimal_Number_small[of level]
  by (simp add: block_level_def make_block_def decimal_Number_def)


















end
